theory Spec2Isabelle
  imports Complex_Main "HOL-Library.Sublist"
begin

section \<open>JavaScript values, strings and thrown errors\<close>

text \<open>
  The formatting routine of \<^verbatim>\<open>packages/wp-checkout/src/lib/format-monetary-amount-for-locale.js\<close>
  is a pure function of three JavaScript values. The model keeps exactly the distinctions
  the code makes on them:
  \<^item> a number is a finite value (a rational; the integers among them are the amounts the
    code formats), negative zero, or one of NaN and the infinities;
  \<^item> a value is a string, a primitive number, a boxed \<^verbatim>\<open>Number\<close> object, or anything else.

  An integer amount is the integer its double stands for. Remainders (\<^verbatim>\<open>%\<close>),
  \<^verbatim>\<open>Math.abs\<close> and \<^verbatim>\<open>Math.sign\<close> are exact on doubles, and the code prints only
  integers below 1000, whose decimal numeral is exact. The one inexact operation is the
  division inside \<^verbatim>\<open>Math.floor( x / d )\<close>: the quotient is rounded to the nearest double
  before the floor is taken, and \<open>Math_floor_div\<close> below computes exactly that. The
  amounts JavaScript can pass are the integers that are doubles; the functions are
  defined on every integer.

  Strings are lists of 8-bit characters. Locale and currency codes are ASCII:
  \<^verbatim>\<open>toUpperCase\<close> and \<^verbatim>\<open>toLowerCase\<close> map the 26 ASCII letters and leave every other
  character as it is. The three non-ASCII currency symbols are written as their UTF-8
  bytes.
\<close>

datatype js_number = Finite rat | NegZero | NotFinite

datatype js_value =
    JSString string
  | JSNumber js_number
  | JSNumberObject js_number
  | JSOther

text \<open>
  The code throws bare strings. Every thrown value carries the literal message; the
  constructor groups the throw sites by the kind of failure. \<open>TypeError\<close> is the runtime's
  own error when a property of \<^verbatim>\<open>undefined\<close> is read; its message is the engine's and
  stands here as a label only.
\<close>

datatype error =
    InvalidArgument string
  | UnhandledLocale string
  | UnsupportedCurrency string
  | NoMinorUnit string
  | TypeError string

subsection \<open>String primitives\<close>

definition upperChar :: "char \<Rightarrow> char" where
  "upperChar c =
     (let n = (of_char c :: nat) in if 97 \<le> n \<and> n \<le> 122 then char_of (n - 32) else c)"

definition lowerChar :: "char \<Rightarrow> char" where
  "lowerChar c =
     (let n = (of_char c :: nat) in if 65 \<le> n \<and> n \<le> 90 then char_of (n + 32) else c)"

definition toUpperCase :: "string \<Rightarrow> string" where
  "toUpperCase s = map upperChar s"

definition toLowerCase :: "string \<Rightarrow> string" where
  "toLowerCase s = map lowerChar s"

definition digitChar :: "nat \<Rightarrow> char" where
  "digitChar d = char_of (48 + d)"

definition isDigit :: "char \<Rightarrow> bool" where
  "isDigit c = (48 \<le> (of_char c :: nat) \<and> (of_char c :: nat) \<le> 57)"

fun toDecimal :: "nat \<Rightarrow> string" where
  "toDecimal n = (if n < 10 then [digitChar n] else toDecimal (n div 10) @ [digitChar (n mod 10)])"

declare toDecimal.simps [simp del]

definition Number_toString :: "int \<Rightarrow> string" where
  "Number_toString n = (if n < 0 then CHR ''-'' # toDecimal (nat (- n)) else toDecimal (nat n))"

definition padStart :: "nat \<Rightarrow> char \<Rightarrow> string \<Rightarrow> string" where
  "padStart targetLength padChar s = replicate (targetLength - length s) padChar @ s"

fun join :: "string \<Rightarrow> string list \<Rightarrow> string" where
  "join separator [] = []"
| "join separator [x] = x"
| "join separator (x # y # ys) = x @ separator @ join separator (y # ys)"

section \<open>Division of doubles\<close>

text \<open>
  \<^verbatim>\<open>Math.floor( x / d )\<close> for a positive integer \<open>x\<close> and a positive divisor \<open>d\<close>, in
  IEEE 754 double arithmetic with round-to-nearest, ties to even. With \<open>e\<close> the binary
  exponent of the exact quotient, \<open>2^e \<le> x / d < 2^(e + 1)\<close>, the doubles of that binade
  are the multiples of \<open>2^(e - 52)\<close>; the quotient is rounded to the nearest of them, the
  one with the even multiplier on a tie, and the floor of the result is taken.
  \<open>roundHalfEven n k\<close> is the integer nearest to \<open>n / k\<close>, the even one on a tie. Both call
  sites divide a positive integer by 100 or by 1000, far from overflow and from the
  subnormal range; at 0 the quotient is 0, and no call site passes a negative dividend.
\<close>

function bitLength :: "int \<Rightarrow> nat" where
  "bitLength n = (if n \<le> 0 then 0 else Suc (bitLength (n div 2)))"
  by pat_completeness auto
termination
  by (relation "measure nat") auto

declare bitLength.simps [simp del]

definition binaryExponent :: "int \<Rightarrow> int \<Rightarrow> int" where
  "binaryExponent x d =
     (let k = int (bitLength x) - int (bitLength d) in
      if (if 0 \<le> k then d * 2 ^ nat k \<le> x else d \<le> x * 2 ^ nat (- k)) then k else k - 1)"

definition roundHalfEven :: "int \<Rightarrow> int \<Rightarrow> int" where
  "roundHalfEven n k =
     (let q = n div k; r = n mod k in
      if 2 * r < k then q else if k < 2 * r then q + 1 else if even q then q else q + 1)"

definition Math_floor_div :: "int \<Rightarrow> int \<Rightarrow> int" where
  "Math_floor_div x d =
     (if x \<le> 0 then 0
      else
        let e = binaryExponent x d in
        if e < 52 then roundHalfEven (x * 2 ^ nat (52 - e)) d div 2 ^ nat (52 - e)
        else roundHalfEven x (d * 2 ^ nat (e - 52)) * 2 ^ nat (e - 52))"

section \<open>Digit grouping\<close>

text \<open>
  The recursion of \<^verbatim>\<open>groupDigitsAccum\<close> ends because the rounded quotient of an amount of
  at least 1000 by 1000 is at most a five-hundredth of the amount.
\<close>

function groupDigitsAccum :: "int \<Rightarrow> string list \<Rightarrow> string list" where
  "groupDigitsAccum localAmount localDigits =
     (if localAmount < 1000 then Number_toString localAmount # localDigits
      else
        let nextGroup = localAmount mod 1000;
            remainder = Math_floor_div localAmount 1000
        in groupDigitsAccum remainder
             (padStart 3 (CHR ''0'') (Number_toString nextGroup) # localDigits))"
  by pat_completeness auto
termination
proof -
  have rounding: "k * roundHalfEven n k \<le> 2 * n" if "0 \<le> n" and "0 < k" for n k :: int
  proof -
    have a: "k * (n div k) + n mod k = n"
      by simp
    have m: "0 \<le> n mod k"
      using that(2) by simp
    have d: "0 \<le> k * (n div k)"
      using that by (simp add: pos_imp_zdiv_nonneg_iff)
    have "k * (n div k + 1) \<le> 2 * n" if "k \<le> 2 * (n mod k)"
    proof -
      have "k * (n div k + 1) = k * (n div k) + k"
        by (simp add: algebra_simps)
      with a d that show ?thesis
        by linarith
    qed
    moreover have "k * (n div k) \<le> 2 * n"
      using a m that(1) by linarith
    ultimately show ?thesis
      by (auto simp: roundHalfEven_def Let_def)
  qed
  have quotient: "d * Math_floor_div x d \<le> 2 * x" if "0 < d" and "0 \<le> x" for x d :: int
  proof (cases "x \<le> 0")
    case True
    with that(2) show ?thesis
      by (simp add: Math_floor_div_def)
  next
    case pos: False
    define e where "e = binaryExponent x d"
    show ?thesis
    proof (cases "e < 52")
      case True
      define P :: int where "P = 2 ^ nat (52 - e)"
      have P: "0 < P"
        by (simp add: P_def)
      define m where "m = roundHalfEven (x * P) d"
      have q: "Math_floor_div x d = m div P"
        using pos True by (simp add: Math_floor_div_def e_def [symmetric] P_def m_def)
      have "0 \<le> x * P"
        using that(2) P by simp
      then have "d * m \<le> 2 * (x * P)"
        unfolding m_def using that(1) by (rule rounding)
      moreover have "(m div P) * P + m mod P = m" "0 \<le> m mod P"
        using P by simp_all
      then have "(m div P) * P \<le> m"
        by linarith
      then have "d * ((m div P) * P) \<le> d * m"
        using that(1) by (simp add: mult_left_mono)
      ultimately have "(d * (m div P)) * P \<le> (2 * x) * P"
        by (simp add: mult.assoc)
      then have "d * (m div P) \<le> 2 * x"
        using P by simp
      then show ?thesis
        by (simp add: q)
    next
      case False
      define T :: int where "T = 2 ^ nat (e - 52)"
      have T: "0 < T"
        by (simp add: T_def)
      define m where "m = roundHalfEven x (d * T)"
      have q: "Math_floor_div x d = m * T"
        using False pos by (simp add: Math_floor_div_def e_def [symmetric] T_def m_def)
      have "(d * T) * m \<le> 2 * x"
        unfolding m_def using that T by (intro rounding) simp_all
      then show ?thesis
        by (simp add: q mult.assoc mult.left_commute mult.commute)
    qed
  qed
  have smaller: "Math_floor_div a 1000 < a" if "\<not> a < 1000" for a :: int
  proof -
    have "1000 * Math_floor_div a 1000 \<le> 2 * a"
      using that by (intro quotient) simp_all
    with that show ?thesis
      by linarith
  qed
  show ?thesis
    by (relation "measure (\<lambda>(localAmount, localDigits). nat localAmount)")
      (simp_all add: smaller)
qed

declare groupDigitsAccum.simps [simp del]

definition groupDigits :: "int \<Rightarrow> string list" where
  "groupDigits amount = groupDigitsAccum amount []"

section \<open>The currency and locale tables\<close>

record separators =
  decimalSeparator :: string
  groupSeparator :: string

record digit_groups =
  integerPart :: "string list"
  fractionalPart :: "string option"

text \<open>The symbols of pound, euro and yen, as UTF-8 bytes (U+00A3, U+20AC, U+00A5).\<close>

definition poundSign :: string where
  "poundSign = [CHR 0xC2, CHR 0xA3]"

definition euroSign :: string where
  "euroSign = [CHR 0xE2, CHR 0x82, CHR 0xAC]"

definition yenSign :: string where
  "yenSign = [CHR 0xC2, CHR 0xA5]"

definition minorUnitsPerMajorUnitForCurrency :: "string \<Rightarrow> error + int" where
  "minorUnitsPerMajorUnitForCurrency currencyCode =
     (let normalizedCurrencyCode = toUpperCase currencyCode in
      if normalizedCurrencyCode = ''JPY'' then Inr 1
      else if normalizedCurrencyCode \<in> {''BRL'', ''CAD'', ''EUR'', ''GBP'', ''NZD'', ''USD''}
        then Inr 100
      else Inl (UnsupportedCurrency ''Unknown currency exponent''))"

definition minorUnitsAsDecimalForCurrency :: "string \<Rightarrow> int \<Rightarrow> error + string" where
  "minorUnitsAsDecimalForCurrency currencyCode absoluteAmount =
     (let normalizedCurrencyCode = toUpperCase currencyCode in
      if normalizedCurrencyCode \<in> {''AUD'', ''CAD'', ''EUR'', ''GBP'', ''NZD'', ''USD''} then
        (if absoluteAmount < 0 \<or> 100 \<le> absoluteAmount then Inl (InvalidArgument [])
         else Inr (padStart 2 (CHR ''0'') (Number_toString absoluteAmount)))
      else if normalizedCurrencyCode = ''JPY'' then
        Inl (NoMinorUnit (''Currency does not have a minimal unit: '' @ normalizedCurrencyCode))
      else
        Inl (UnsupportedCurrency
              (''Minor unit format for currency code not defined: '' @ normalizedCurrencyCode)))"

definition symbolForCurrency :: "string \<Rightarrow> error + string" where
  "symbolForCurrency currencyCode =
     (let normalizedCurrencyCode = toUpperCase currencyCode in
      if normalizedCurrencyCode \<in> {''AUD'', ''CAD'', ''NZD'', ''USD''} then Inr ''$''
      else if normalizedCurrencyCode = ''GBP'' then Inr poundSign
      else if normalizedCurrencyCode = ''EUR'' then Inr euroSign
      else if normalizedCurrencyCode = ''JPY'' then Inr yenSign
      else if normalizedCurrencyCode = ''BRL'' then Inr ''R$''
      else
        Inl (UnsupportedCurrency
              (''Symbol for currency code not defined: '' @ normalizedCurrencyCode)))"

text \<open>
  The switch of \<^verbatim>\<open>separatorsForLocale\<close> has no default branch: for any other locale the
  function falls off its end and returns \<^verbatim>\<open>undefined\<close>, which is \<open>None\<close> here.
\<close>

definition separatorsForLocale :: "string \<Rightarrow> separators option" where
  "separatorsForLocale localeCode =
     (let normalizedLocaleCode = toLowerCase localeCode in
      if normalizedLocaleCode \<in> {''gb'', ''jp'', ''nz'', ''us''}
        then Some \<lparr>decimalSeparator = ''.'', groupSeparator = '',''\<rparr>
      else if normalizedLocaleCode = ''au''
        then Some \<lparr>decimalSeparator = ''.'', groupSeparator = '' ''\<rparr>
      else if normalizedLocaleCode = ''br''
        then Some \<lparr>decimalSeparator = '','', groupSeparator = ''.''\<rparr>
      else None)"

section \<open>Decomposing and rendering an amount\<close>

text \<open>
  \<open>absoluteAmount\<close> is an integer by its type, so of the guard
  \<^verbatim>\<open>Number.isInteger( absoluteAmount ) && absoluteAmount >= 0\<close> the sign test remains.
\<close>

definition digitGroupsOfAmountForCurrency :: "string \<Rightarrow> int \<Rightarrow> error + digit_groups" where
  "digitGroupsOfAmountForCurrency currencyCode absoluteAmount =
     (if \<not> 0 \<le> absoluteAmount then
        Inl (InvalidArgument ''absoluteAmount parameter must be a nonnegative integer.'')
      else if 0 = absoluteAmount then
        (case minorUnitsAsDecimalForCurrency currencyCode 0 of
           Inl e \<Rightarrow> Inl e
         | Inr fractional \<Rightarrow> Inr \<lparr>integerPart = [''0''], fractionalPart = Some fractional\<rparr>)
      else
        (case minorUnitsPerMajorUnitForCurrency currencyCode of
           Inl e \<Rightarrow> Inl e
         | Inr base \<Rightarrow>
             if 1 = base then
               Inr \<lparr>integerPart = groupDigits absoluteAmount, fractionalPart = None\<rparr>
             else
               (case minorUnitsAsDecimalForCurrency currencyCode (absoluteAmount mod base) of
                  Inl e \<Rightarrow> Inl e
                | Inr fractional \<Rightarrow>
                    let majorUnitAmount = Math_floor_div absoluteAmount base
                    in Inr \<lparr>integerPart = groupDigits majorUnitAmount,
                            fractionalPart = Some fractional\<rparr>)))"

text \<open>
  Destructuring \<^verbatim>\<open>undefined\<close> raises a \<open>TypeError\<close>; concatenating an absent
  \<^verbatim>\<open>fractionalPart\<close> would append the text \<^verbatim>\<open>undefined\<close>.
\<close>

definition renderAmountWithSeparatorsForCurrencyAndLocale ::
    "int \<Rightarrow> string \<Rightarrow> string \<Rightarrow> error + string" where
  "renderAmountWithSeparatorsForCurrencyAndLocale absoluteAmount localeCode currencyCode =
     (case digitGroupsOfAmountForCurrency currencyCode absoluteAmount of
        Inl e \<Rightarrow> Inl e
      | Inr groups \<Rightarrow>
          (case separatorsForLocale localeCode of
             None \<Rightarrow> Inl (TypeError ''Cannot destructure property of undefined'')
           | Some seps \<Rightarrow>
               (case minorUnitsPerMajorUnitForCurrency currencyCode of
                  Inl e \<Rightarrow> Inl e
                | Inr base \<Rightarrow>
                    if 1 = base then Inr (join (groupSeparator seps) (integerPart groups))
                    else
                      Inr (join (groupSeparator seps) (integerPart groups)
                           @ decimalSeparator seps
                           @ (case fractionalPart groups of
                                None \<Rightarrow> ''undefined''
                              | Some fractional \<Rightarrow> fractional)))))"

definition formatSymbolAmount :: "int \<Rightarrow> int \<Rightarrow> string \<Rightarrow> string \<Rightarrow> error + string" where
  "formatSymbolAmount amountSign absoluteAmount localeCode currencyCode =
     (case symbolForCurrency currencyCode of
        Inl e \<Rightarrow> Inl e
      | Inr symbol \<Rightarrow>
          let sign = (if amountSign \<ge> 0 then [] else ''-'') in
          if 0 = amountSign then Inr (symbol @ ''0'')
          else
            (case renderAmountWithSeparatorsForCurrencyAndLocale
                    absoluteAmount localeCode currencyCode of
               Inl e \<Rightarrow> Inl e
             | Inr rendered \<Rightarrow> Inr (sign @ symbol @ rendered)))"

definition formatSymbolAmountCode :: "int \<Rightarrow> int \<Rightarrow> string \<Rightarrow> string \<Rightarrow> error + string" where
  "formatSymbolAmountCode amountSign absoluteAmount localeCode currencyCode =
     (case formatSymbolAmount amountSign absoluteAmount localeCode currencyCode of
        Inl e \<Rightarrow> Inl e
      | Inr formatted \<Rightarrow> Inr (formatted @ '' '' @ currencyCode))"

section \<open>The entry point\<close>

definition isString :: "js_value \<Rightarrow> bool" where
  "isString v = (case v of JSString s \<Rightarrow> True | _ \<Rightarrow> False)"

definition stringOf :: "js_value \<Rightarrow> string" where
  "stringOf v = (case v of JSString s \<Rightarrow> s | _ \<Rightarrow> [])"

text \<open>\<^verbatim>\<open>typeof amount === 'number' || amount instanceof Number\<close>\<close>

definition isNumber :: "js_value \<Rightarrow> bool" where
  "isNumber v = (case v of JSNumber x \<Rightarrow> True | JSNumberObject x \<Rightarrow> True | _ \<Rightarrow> False)"

text \<open>\<^verbatim>\<open>Number.isInteger\<close> is false for everything that is not a primitive number.\<close>

definition Number_isInteger :: "js_value \<Rightarrow> bool" where
  "Number_isInteger v =
     (case v of
        JSNumber (Finite q) \<Rightarrow> q = of_int \<lfloor>q\<rfloor>
      | JSNumber NegZero \<Rightarrow> True
      | _ \<Rightarrow> False)"

text \<open>
  The integer an integral number stands for. Negative zero is 0: \<^verbatim>\<open>Math.abs(-0)\<close> is 0,
  and \<^verbatim>\<open>Math.sign(-0)\<close> is \<open>-0\<close>, which \<^verbatim>\<open>>=\<close> and \<^verbatim>\<open>===\<close> do not tell from 0.
\<close>

definition integerOf :: "js_value \<Rightarrow> int" where
  "integerOf v = (case v of JSNumber (Finite q) \<Rightarrow> \<lfloor>q\<rfloor> | _ \<Rightarrow> 0)"

definition formatMonetaryAmountForLocale ::
    "js_value \<Rightarrow> js_value \<Rightarrow> js_value \<Rightarrow> error + string" where
  "formatMonetaryAmountForLocale localeCode currencyCode amount =
     (if \<not> isString localeCode then
        Inl (InvalidArgument ''locale parameter must be a string.'')
      else if \<not> isString currencyCode then
        Inl (InvalidArgument ''currency parameter must be a string.'')
      else if \<not> isNumber amount then
        Inl (InvalidArgument ''amount parameter must be a number.'')
      else if \<not> Number_isInteger amount then
        Inl (InvalidArgument ''amount parameter must be an integer.'')
      else
        let absoluteAmount = \<bar>integerOf amount\<bar>;
            amountSign = sgn (integerOf amount);
            normalizedLocaleCode = toLowerCase (stringOf localeCode);
            normalizedCurrencyCode = toUpperCase (stringOf currencyCode)
        in
          if normalizedLocaleCode = ''us'' then
            (if normalizedCurrencyCode \<in> {''USD'', ''JPY'', ''GBP'', ''EUR''} then
               formatSymbolAmount amountSign absoluteAmount
                 normalizedLocaleCode normalizedCurrencyCode
             else
               formatSymbolAmountCode amountSign absoluteAmount
                 normalizedLocaleCode normalizedCurrencyCode)
          else Inl (UnhandledLocale ''Unhandled locale''))"

text \<open>A call with string codes and an integer amount: \<^verbatim>\<open>format(locale, currency, a)\<close>.\<close>

abbreviation format :: "string \<Rightarrow> string \<Rightarrow> int \<Rightarrow> error + string" where
  "format localeCode currencyCode amount \<equiv>
     formatMonetaryAmountForLocale (JSString localeCode) (JSString currencyCode)
       (JSNumber (Finite (of_int amount)))"

section \<open>The second variant of the routine\<close>

text \<open>
  \<^verbatim>\<open>src/unnamed/part_000\<close> holds an earlier copy of the same module. Its
  \<^verbatim>\<open>groupDigits\<close>, \<^verbatim>\<open>minorUnitsPerMajorUnitForCurrency\<close> and \<^verbatim>\<open>separatorsForLocale\<close> are
  the same text as above and are shared here. Its \<^verbatim>\<open>minorUnitsAsDecimalForCurrency\<close> has
  no range check and knows neither AUD nor CAD, its \<^verbatim>\<open>symbolForCurrency\<close> does not know
  BRL, and its messages differ; the functions that call them are copied with them.
\<close>

definition minorUnitsAsDecimalForCurrency_part000 :: "string \<Rightarrow> int \<Rightarrow> error + string" where
  "minorUnitsAsDecimalForCurrency_part000 currencyCode absoluteAmount =
     (let normalizedCurrencyCode = toUpperCase currencyCode in
      if normalizedCurrencyCode \<in> {''EUR'', ''GBP'', ''NZD'', ''USD''} then
        Inr (padStart 2 (CHR ''0'') (Number_toString absoluteAmount))
      else if normalizedCurrencyCode = ''JPY'' then
        Inl (NoMinorUnit ''Currency does not have a minimal unit.'')
      else Inl (UnsupportedCurrency ''Unknown minor unit format''))"

definition symbolForCurrency_part000 :: "string \<Rightarrow> error + string" where
  "symbolForCurrency_part000 currencyCode =
     (let normalizedCurrencyCode = toUpperCase currencyCode in
      if normalizedCurrencyCode \<in> {''AUD'', ''CAD'', ''NZD'', ''USD''} then Inr ''$''
      else if normalizedCurrencyCode = ''GBP'' then Inr poundSign
      else if normalizedCurrencyCode = ''EUR'' then Inr euroSign
      else if normalizedCurrencyCode = ''JPY'' then Inr yenSign
      else Inl (UnsupportedCurrency ''Unknown currency symbol''))"

definition digitGroupsOfAmountForCurrency_part000 ::
    "string \<Rightarrow> int \<Rightarrow> error + digit_groups" where
  "digitGroupsOfAmountForCurrency_part000 currencyCode absoluteAmount =
     (if \<not> 0 \<le> absoluteAmount then
        Inl (InvalidArgument ''absoluteAmount parameter must be a nonnegative integer.'')
      else if 0 = absoluteAmount then
        (case minorUnitsAsDecimalForCurrency_part000 currencyCode 0 of
           Inl e \<Rightarrow> Inl e
         | Inr fractional \<Rightarrow> Inr \<lparr>integerPart = [''0''], fractionalPart = Some fractional\<rparr>)
      else
        (case minorUnitsPerMajorUnitForCurrency currencyCode of
           Inl e \<Rightarrow> Inl e
         | Inr base \<Rightarrow>
             if 1 = base then
               Inr \<lparr>integerPart = groupDigits absoluteAmount, fractionalPart = None\<rparr>
             else
               (case minorUnitsAsDecimalForCurrency_part000 currencyCode
                       (absoluteAmount mod base) of
                  Inl e \<Rightarrow> Inl e
                | Inr fractional \<Rightarrow>
                    let majorUnitAmount = Math_floor_div absoluteAmount base
                    in Inr \<lparr>integerPart = groupDigits majorUnitAmount,
                            fractionalPart = Some fractional\<rparr>)))"

definition renderAmountWithSeparatorsForCurrencyAndLocale_part000 ::
    "int \<Rightarrow> string \<Rightarrow> string \<Rightarrow> error + string" where
  "renderAmountWithSeparatorsForCurrencyAndLocale_part000 absoluteAmount localeCode currencyCode =
     (case digitGroupsOfAmountForCurrency_part000 currencyCode absoluteAmount of
        Inl e \<Rightarrow> Inl e
      | Inr groups \<Rightarrow>
          (case separatorsForLocale localeCode of
             None \<Rightarrow> Inl (TypeError ''Cannot destructure property of undefined'')
           | Some seps \<Rightarrow>
               (case minorUnitsPerMajorUnitForCurrency currencyCode of
                  Inl e \<Rightarrow> Inl e
                | Inr base \<Rightarrow>
                    if 1 = base then Inr (join (groupSeparator seps) (integerPart groups))
                    else
                      Inr (join (groupSeparator seps) (integerPart groups)
                           @ decimalSeparator seps
                           @ (case fractionalPart groups of
                                None \<Rightarrow> ''undefined''
                              | Some fractional \<Rightarrow> fractional)))))"

definition formatSymbolAmount_part000 ::
    "int \<Rightarrow> int \<Rightarrow> string \<Rightarrow> string \<Rightarrow> error + string" where
  "formatSymbolAmount_part000 amountSign absoluteAmount localeCode currencyCode =
     (case symbolForCurrency_part000 currencyCode of
        Inl e \<Rightarrow> Inl e
      | Inr symbol \<Rightarrow>
          let sign = (if amountSign \<ge> 0 then [] else ''-'') in
          if 0 = amountSign then Inr (symbol @ ''0'')
          else
            (case renderAmountWithSeparatorsForCurrencyAndLocale_part000
                    absoluteAmount localeCode currencyCode of
               Inl e \<Rightarrow> Inl e
             | Inr rendered \<Rightarrow> Inr (sign @ symbol @ rendered)))"

definition formatSymbolAmountCode_part000 ::
    "int \<Rightarrow> int \<Rightarrow> string \<Rightarrow> string \<Rightarrow> error + string" where
  "formatSymbolAmountCode_part000 amountSign absoluteAmount localeCode currencyCode =
     (case formatSymbolAmount_part000 amountSign absoluteAmount localeCode currencyCode of
        Inl e \<Rightarrow> Inl e
      | Inr formatted \<Rightarrow> Inr (formatted @ '' '' @ currencyCode))"

definition formatMonetaryAmountForLocale_part000 ::
    "js_value \<Rightarrow> js_value \<Rightarrow> js_value \<Rightarrow> error + string" where
  "formatMonetaryAmountForLocale_part000 localeCode currencyCode amount =
     (if \<not> isString localeCode then
        Inl (InvalidArgument ''locale parameter must be a string.'')
      else if \<not> isString currencyCode then
        Inl (InvalidArgument ''currency parameter must be a string.'')
      else if \<not> isNumber amount then
        Inl (InvalidArgument ''amount parameter must be a number.'')
      else if \<not> Number_isInteger amount then
        Inl (InvalidArgument ''amount parameter must be an integer.'')
      else
        let absoluteAmount = \<bar>integerOf amount\<bar>;
            amountSign = sgn (integerOf amount);
            normalizedLocaleCode = toLowerCase (stringOf localeCode);
            normalizedCurrencyCode = toUpperCase (stringOf currencyCode)
        in
          if normalizedLocaleCode = ''us'' then
            (if normalizedCurrencyCode \<in> {''USD'', ''JPY'', ''GBP'', ''EUR''} then
               formatSymbolAmount_part000 amountSign absoluteAmount
                 normalizedLocaleCode normalizedCurrencyCode
             else
               formatSymbolAmountCode_part000 amountSign absoluteAmount
                 normalizedLocaleCode normalizedCurrencyCode)
          else Inl (UnhandledLocale ''Unhandled locale''))"

abbreviation format_part000 :: "string \<Rightarrow> string \<Rightarrow> int \<Rightarrow> error + string" where
  "format_part000 localeCode currencyCode amount \<equiv>
     formatMonetaryAmountForLocale_part000 (JSString localeCode) (JSString currencyCode)
       (JSNumber (Finite (of_int amount)))"

section \<open>Reading a formatted string\<close>

text \<open>
  The digits that follow the first decimal separator of a formatted string, up to the
  first character that is not a digit.
\<close>

definition digitsAfterDecimalSeparator :: "string \<Rightarrow> string" where
  "digitsAfterDecimalSeparator s =
     takeWhile isDigit (drop 1 (dropWhile (\<lambda>c. c \<noteq> CHR ''.'') s))"

section \<open>Facts about the division of doubles\<close>

lemma roundHalfEven_ge: "n div k \<le> roundHalfEven n k"
  by (simp add: roundHalfEven_def Let_def)

lemma Math_floor_div_nonneg:
  assumes "0 < d"
  shows "0 \<le> Math_floor_div x d"
proof (cases "x \<le> 0")
  case True
  then show ?thesis
    by (simp add: Math_floor_div_def)
next
  case pos: False
  define e where "e = binaryExponent x d"
  have r: "0 \<le> roundHalfEven n k" if "0 \<le> n" "0 < k" for n k :: int
  proof -
    have "0 \<le> n div k"
      using that by (simp add: pos_imp_zdiv_nonneg_iff)
    with roundHalfEven_ge [of n k] show ?thesis
      by linarith
  qed
  show ?thesis
  proof (cases "e < 52")
    case True
    have "0 \<le> roundHalfEven (x * 2 ^ nat (52 - e)) d"
      using pos assms by (intro r) simp_all
    then show ?thesis
      using pos True
      by (simp add: Math_floor_div_def e_def [symmetric] pos_imp_zdiv_nonneg_iff)
  next
    case False
    have "0 \<le> roundHalfEven x (d * 2 ^ nat (e - 52))"
      using pos assms by (intro r) simp_all
    then show ?thesis
      using pos False by (simp add: Math_floor_div_def e_def [symmetric])
  qed
qed

lemma roundHalfEven_scaled:
  fixes x d P :: int
  assumes "0 \<le> x" and "0 < d" and "0 < P" and "d < 2 * P"
  shows "roundHalfEven (x * P) d div P = x div d"
proof -
  define q where "q = x div d"
  define r where "r = x mod d"
  define u where "u = (r * P) div d"
  define v where "v = (r * P) mod d"
  have x: "x = d * q + r" and r: "0 \<le> r" "r < d"
    using assms(2) by (simp_all add: q_def r_def)
  have rp: "r * P = d * u + v" and v: "0 \<le> v" "v < d"
    using assms(2) by (simp_all add: u_def v_def)
  have u0: "0 \<le> u"
    using r(1) assms(2,3) by (simp add: u_def pos_imp_zdiv_nonneg_iff)
  have xp: "x * P = d * (q * P + u) + v"
    using rp by (simp add: x algebra_simps)
  have dv: "(x * P) div d = q * P + u"
    unfolding xp using v assms(2) by (simp add: div_pos_pos_trivial)
  have md: "(x * P) mod d = v"
    unfolding xp using v assms(2) by (simp add: mod_pos_pos_trivial)
  have le: "r * P \<le> d * P - P"
  proof -
    have "r \<le> d - 1"
      using r(2) by simp
    then have "r * P \<le> (d - 1) * P"
      using assms(3) by (simp add: mult_right_mono)
    then show ?thesis
      by (simp add: algebra_simps)
  qed
  have lt: "u < P"
  proof (rule ccontr)
    assume "\<not> u < P"
    then have "d * P \<le> d * u"
      using assms(2) by (simp add: mult_left_mono)
    with rp v(1) le assms(3) show False
      by linarith
  qed
  have up: "u + 1 < P" if half: "d \<le> 2 * v"
  proof (rule ccontr)
    assume "\<not> u + 1 < P"
    with lt have "u = P - 1"
      by simp
    then have "d * u = d * P - d"
      by (simp only: right_diff_distrib mult_1_right)
    with rp le have "v + P \<le> d"
      by linarith
    with half assms(4) show False
      by linarith
  qed
  define m where "m = roundHalfEven (x * P) d"
  have m: "q * P + u \<le> m" "m < q * P + P"
    using lt up v
    by (auto simp: m_def roundHalfEven_def Let_def dv md)
  have q0: "0 \<le> q"
    using assms(1,2) by (simp add: q_def pos_imp_zdiv_nonneg_iff)
  have "m div P = q"
  proof (rule int_div_pos_eq [of m P q "m - q * P"])
    show "m = P * q + (m - q * P)"
      by (simp add: algebra_simps)
    show "0 \<le> m - q * P"
      using m(1) u0 by linarith
    show "m - q * P < P"
      using m(2) by linarith
  qed
  then show ?thesis
    by (simp add: m_def q_def)
qed

lemma bitLength_le: "n < 2 ^ k \<Longrightarrow> bitLength n \<le> k"
proof (induction k arbitrary: n)
  case 0
  then show ?case
    by (simp add: bitLength.simps [of n])
next
  case (Suc k)
  from Suc.prems have "n div 2 < 2 ^ k"
    by simp
  then have "bitLength (n div 2) \<le> k"
    by (rule Suc.IH)
  then show ?case
    by (simp add: bitLength.simps [of n])
qed

lemma bitLength_divisors: "bitLength 1000 = 10" "bitLength 100 = 7"
  by code_simp+

lemma binaryExponent_le: "binaryExponent x d \<le> int (bitLength x) - int (bitLength d)"
  by (simp add: binaryExponent_def Let_def)

lemma Math_floor_div_exact:
  assumes "0 \<le> x" and "x < 2 ^ 53" and "d = 100 \<or> d = 1000"
  shows "Math_floor_div x d = x div d"
proof (cases "x \<le> 0")
  case True
  with assms(1) show ?thesis
    by (simp add: Math_floor_div_def)
next
  case pos: False
  define e where "e = binaryExponent x d"
  have "bitLength x \<le> 53"
    using assms(2) by (rule bitLength_le)
  moreover have "7 \<le> bitLength d"
    using assms(3) by (auto simp: bitLength_divisors)
  ultimately have e: "e \<le> 46"
    using binaryExponent_le [of x d] by (simp add: e_def)
  have e': "e \<le> 43" if "d = 1000"
    using binaryExponent_le [of x d] \<open>bitLength x \<le> 53\<close> that
    by (simp add: e_def bitLength_divisors)
  define s where "s = nat (52 - e)"
  have d: "0 < d"
    using assms(3) by auto
  have "d < 2 * 2 ^ s"
  proof (cases "d = 1000")
    case True
    then have "9 \<le> s"
      using e' by (simp add: s_def)
    then have "(2 :: int) ^ 9 \<le> 2 ^ s"
      by (intro power_increasing) simp_all
    with True show ?thesis
      by simp
  next
    case False
    with assms(3) have h: "d = 100"
      by simp
    have "6 \<le> s"
      using e by (simp add: s_def)
    then have "(2 :: int) ^ 6 \<le> 2 ^ s"
      by (intro power_increasing) simp_all
    with h show ?thesis
      by simp
  qed
  then have "roundHalfEven (x * 2 ^ s) d div 2 ^ s = x div d"
    using assms(1) d by (intro roundHalfEven_scaled) simp_all
  then show ?thesis
    using pos e by (simp add: Math_floor_div_def e_def [symmetric] s_def)
qed

text \<open>
  \<open>binaryExponent\<close> is the binary exponent of the exact quotient:
  \<open>2^e \<le> x / d < 2^(e + 1)\<close>.
\<close>

lemma bitLength_bounds:
  "0 < n \<Longrightarrow> 2 ^ (bitLength n - 1) \<le> n \<and> n < 2 ^ bitLength n"
proof (induction n rule: bitLength.induct)
  case (1 n)
  show ?case
  proof (cases "n = 1")
    case True
    then show ?thesis
      by (simp add: bitLength.simps [of 1] bitLength.simps [of 0])
  next
    case False
    with "1.prems" have h: "0 < n div 2" "\<not> n \<le> 0"
      by simp_all
    from "1.IH" [OF h(2) h(1)]
    have ih: "2 ^ (bitLength (n div 2) - 1) \<le> n div 2" "n div 2 < 2 ^ bitLength (n div 2)"
      by simp_all
    have pos: "0 < bitLength (n div 2)"
      using h(1) by (simp add: bitLength.simps [of "n div 2"])
    have b: "bitLength n = Suc (bitLength (n div 2))"
      using h(2) by (simp add: bitLength.simps [of n])
    have "2 ^ (bitLength n - 1) = (2 :: int) * 2 ^ (bitLength (n div 2) - 1)"
      using pos by (simp add: b flip: power_Suc)
    with ih show ?thesis
      by (simp add: b) linarith
  qed
qed

lemma binaryExponent_bounds:
  assumes "0 < x" and "0 < d"
  shows "of_int d * 2 powi binaryExponent x d \<le> (of_int x :: rat)"
    and "(of_int x :: rat) < of_int d * 2 powi (binaryExponent x d + 1)"
proof -
  define bx where "bx = int (bitLength x)"
  define bd where "bd = int (bitLength d)"
  define k where "k = bx - bd"
  have px: "0 < bitLength x" and pd: "0 < bitLength d"
    using assms by (simp_all add: bitLength.simps [of x] bitLength.simps [of d])
  have cast: "(2 :: rat) powi int n = of_int (2 ^ n)" for n
    by simp
  have low: "(2 :: rat) powi (int (bitLength n) - 1) \<le> of_int n"
    and high: "(of_int n :: rat) < 2 powi int (bitLength n)" if "0 < n" for n
  proof -
    have p: "0 < bitLength n"
      using that by (simp add: bitLength.simps [of n])
    then have "int (bitLength n) - 1 = int (bitLength n - 1)"
      by simp
    then have "(2 :: rat) powi (int (bitLength n) - 1) = of_int (2 ^ (bitLength n - 1))"
      by (simp only: cast)
    also have "\<dots> \<le> of_int n"
      using bitLength_bounds [OF that] by (simp only: of_int_le_iff)
    finally show "(2 :: rat) powi (int (bitLength n) - 1) \<le> of_int n" .
    have "(of_int n :: rat) < of_int (2 ^ bitLength n)"
      using bitLength_bounds [OF that] by (simp only: of_int_less_iff)
    then show "(of_int n :: rat) < 2 powi int (bitLength n)"
      by (simp only: cast)
  qed
  have test: "(if 0 \<le> k then d * 2 ^ nat k \<le> x else d \<le> x * 2 ^ nat (- k)) \<longleftrightarrow>
              of_int d * 2 powi k \<le> (of_int x :: rat)"
  proof (cases "0 \<le> k")
    case True
    then have "(2 :: rat) powi k = of_int (2 ^ nat k)"
      by (simp add: power_int_def)
    then have "of_int d * 2 powi k = (of_int (d * 2 ^ nat k) :: rat)"
      by simp
    then show ?thesis
      using True by (simp only: of_int_le_iff if_True)
  next
    case False
    define P :: rat where "P = of_int (2 ^ nat (- k))"
    have P: "0 < P"
      by (simp add: P_def)
    have "(2 :: rat) powi k = 1 / P"
      using False by (simp add: power_int_def P_def inverse_eq_divide power_one_over)
    then have "of_int d * 2 powi k = of_int d / P"
      by simp
    then have "of_int d * 2 powi k \<le> (of_int x :: rat) \<longleftrightarrow> of_int d \<le> of_int x * P"
      using P by (simp only: pos_divide_le_eq)
    also have "\<dots> \<longleftrightarrow> d \<le> x * 2 ^ nat (- k)"
      unfolding P_def by (simp only: of_int_mult [symmetric] of_int_le_iff)
    finally show ?thesis
      using False by simp
  qed
  have split1: "(2 :: rat) powi bx = 2 powi (bd - 1) * 2 powi (k + 1)"
    by (simp add: k_def flip: power_int_add)
  have split2: "(2 :: rat) powi (bx - 1) = 2 powi bd * 2 powi (k - 1)"
    by (simp add: k_def flip: power_int_add)
  have pw: "(0 :: rat) < 2 powi j" for j
    by simp
  have xl: "(2 :: rat) powi (bx - 1) \<le> of_int x" and xh: "(of_int x :: rat) < 2 powi bx"
    and dl: "(2 :: rat) powi (bd - 1) \<le> of_int d" and dh: "(of_int d :: rat) < 2 powi bd"
    unfolding bx_def bd_def using assms by (simp_all only: low high)
  have up: "(of_int x :: rat) < of_int d * 2 powi (k + 1)"
  proof -
    have "2 powi (bd - 1) * 2 powi (k + 1) \<le> (of_int d :: rat) * 2 powi (k + 1)"
      using dl pw [of "k + 1"] by (simp only: mult_le_cancel_right_pos)
    with xh split1 show ?thesis
      by linarith
  qed
  have down: "of_int d * 2 powi (k - 1) \<le> (of_int x :: rat)"
  proof -
    have "(of_int d :: rat) * 2 powi (k - 1) < 2 powi bd * 2 powi (k - 1)"
      using dh pw [of "k - 1"] by (simp only: mult_less_cancel_right_pos)
    with xl split2 show ?thesis
      by linarith
  qed
  have e: "binaryExponent x d = (if of_int d * 2 powi k \<le> (of_int x :: rat) then k else k - 1)"
    unfolding binaryExponent_def Let_def bx_def [symmetric] bd_def [symmetric] k_def [symmetric]
    by (simp only: test)
  show "of_int d * 2 powi binaryExponent x d \<le> (of_int x :: rat)"
    using down by (simp add: e)
  show "(of_int x :: rat) < of_int d * 2 powi (binaryExponent x d + 1)"
    using up by (auto simp: e not_le)
qed

text \<open>
  The rounding at work: the double of \<^verbatim>\<open>1e23\<close> is 99999999999999991611392; divided by
  100 it rounds to 999999999999999868928, and that divided by 1000 to
  999999999999999872.
\<close>

lemma Math_floor_div_rounds:
  "Math_floor_div 99999999999999991611392 100 = 999999999999999868928"
  "Math_floor_div 999999999999999868928 1000 = 999999999999999872"
  "Math_floor_div 9223372036854775808 1000 = 9223372036854776"
  by code_simp+

lemma format_USD_1e23:
  "format ''us'' ''USD'' 99999999999999991611392 = Inr ''$999,999,999,999,999,872,928.92''"
  by code_simp

section \<open>Facts about the string primitives\<close>

lemma upperChar_idem: "upperChar (upperChar c) = upperChar c"
proof -
  define n :: nat where "n = of_char c"
  show ?thesis
  proof (cases "97 \<le> n \<and> n \<le> 122")
    case True
    then have "n - 32 < 256"
      by arith
    then have "(n - 32) mod 256 = n - 32"
      by (rule mod_less)
    moreover have "\<not> 97 \<le> n - 32"
      using True by arith
    ultimately show ?thesis
      using True by (simp add: upperChar_def Let_def flip: n_def)
  next
    case False
    then have "upperChar c = c"
      by (auto simp: upperChar_def Let_def n_def)
    then show ?thesis
      by simp
  qed
qed

lemma lowerChar_idem: "lowerChar (lowerChar c) = lowerChar c"
  by (simp add: lowerChar_def Let_def)

lemma toUpperCase_idem: "toUpperCase (toUpperCase s) = toUpperCase s"
  by (simp add: toUpperCase_def upperChar_idem)

lemma toLowerCase_idem: "toLowerCase (toLowerCase s) = toLowerCase s"
  by (simp add: toLowerCase_def lowerChar_idem)

lemma toUpperCase_codes:
  "toUpperCase ''USD'' = ''USD''" "toUpperCase ''JPY'' = ''JPY''" "toUpperCase ''GBP'' = ''GBP''"
  "toUpperCase ''EUR'' = ''EUR''" "toUpperCase ''NZD'' = ''NZD''" "toUpperCase ''CAD'' = ''CAD''"
  "toUpperCase ''AUD'' = ''AUD''" "toUpperCase ''BRL'' = ''BRL''"
  by code_simp+

lemma toLowerCase_us: "toLowerCase ''us'' = ''us''"
  by code_simp

lemma digitChar_isDigit: "d < 10 \<Longrightarrow> isDigit (digitChar d)"
  by (simp add: isDigit_def digitChar_def)

lemma toDecimal_isDigit: "list_all isDigit (toDecimal n)"
proof (induction n rule: toDecimal.induct)
  case (1 n)
  show ?case
  proof (cases "n < 10")
    case True
    then show ?thesis by (simp add: toDecimal.simps [of n] digitChar_isDigit)
  next
    case False
    with 1 show ?thesis by (simp add: toDecimal.simps [of n] digitChar_isDigit)
  qed
qed

lemma toDecimal_small: "n < 10 \<Longrightarrow> toDecimal n = [digitChar n]"
  by (simp add: toDecimal.simps [of n])

lemma toDecimal_step: "10 \<le> n \<Longrightarrow> toDecimal n = toDecimal (n div 10) @ [digitChar (n mod 10)]"
  by (simp add: toDecimal.simps [of n])

lemma toDecimal_two: "10 \<le> n \<Longrightarrow> n < 100 \<Longrightarrow> toDecimal n = [digitChar (n div 10), digitChar (n mod 10)]"
  by (simp add: toDecimal_step toDecimal_small)

lemma toDecimal_three: "100 \<le> n \<Longrightarrow> n < 1000 \<Longrightarrow>
  toDecimal n = [digitChar (n div 100), digitChar (n div 10 mod 10), digitChar (n mod 10)]"
  by (simp add: toDecimal_step [of n] toDecimal_two div_mult2_eq [symmetric])

lemma digitChar_0: "digitChar 0 = CHR ''0''"
  by code_simp

lemma of_char_digitChar: "d < 10 \<Longrightarrow> (of_char (digitChar d) :: nat) = 48 + d"
proof -
  assume "d < 10"
  then have "48 + d < 256"
    by arith
  then have "(48 + d) mod 256 = 48 + d"
    by (rule mod_less)
  then show ?thesis
    by (simp add: digitChar_def)
qed

lemma replicate_2: "replicate 2 c = [c, c]"
  by (simp add: numeral_2_eq_2)

lemma padStart_3:
  "padStart 3 c [x] = [c, c, x]" "padStart 3 c [x, y] = [c, x, y]"
  "padStart 3 c [x, y, z] = [x, y, z]"
  by (simp_all add: padStart_def replicate_2)

lemma padStart_2: "padStart 2 c [x] = [c, x]" "padStart 2 c [x, y] = [x, y]"
  by (simp_all add: padStart_def)

lemma padStart3_toDecimal:
  assumes "m < 1000"
  shows "padStart 3 (CHR ''0'') (toDecimal m) =
         [digitChar (m div 100), digitChar (m div 10 mod 10), digitChar (m mod 10)]"
proof -
  consider "m < 10" | "10 \<le> m" "m < 100" | "100 \<le> m"
    by linarith
  then show ?thesis
  proof cases
    case 1
    then show ?thesis
      by (simp add: toDecimal_small padStart_3 digitChar_0)
  next
    case 2
    then show ?thesis
      by (simp add: toDecimal_two padStart_3 digitChar_0)
  next
    case 3
    with assms show ?thesis
      by (simp add: toDecimal_three padStart_3)
  qed
qed

lemma padStart2_toDecimal:
  assumes "m < 100"
  shows "padStart 2 (CHR ''0'') (toDecimal m) = [digitChar (m div 10), digitChar (m mod 10)]"
proof (cases "m < 10")
  case True
  then show ?thesis
    by (simp add: toDecimal_small padStart_2 digitChar_0)
next
  case False
  with assms show ?thesis
    by (simp add: toDecimal_two padStart_2)
qed

lemma mod1000_digits:
  fixes n :: nat
  shows "n mod 1000 div 100 = n div 100 mod 10"
    and "n mod 1000 div 10 mod 10 = n div 10 mod 10"
    and "n mod 1000 mod 10 = n mod 10"
proof -
  have "n mod (100 * 10) = 100 * (n div 100 mod 10) + n mod 100"
    by (rule mod_mult2_eq)
  then show "n mod 1000 div 100 = n div 100 mod 10"
    by simp
  have "n mod (10 * 100) = 10 * (n div 10 mod 100) + n mod 10"
    by (rule mod_mult2_eq)
  then have "n mod 1000 div 10 = n div 10 mod 100"
    by simp
  then show "n mod 1000 div 10 mod 10 = n div 10 mod 10"
    by (simp add: mod_mod_cancel)
  show "n mod 1000 mod 10 = n mod 10"
    by (simp add: mod_mod_cancel)
qed

lemma toDecimal_1000:
  assumes "1000 \<le> n"
  shows "toDecimal n = toDecimal (n div 1000) @ padStart 3 (CHR ''0'') (toDecimal (n mod 1000))"
proof -
  have a: "toDecimal n = toDecimal (n div 10) @ [digitChar (n mod 10)]"
    using assms by (simp add: toDecimal_step)
  have b: "toDecimal (n div 10) = toDecimal (n div 100) @ [digitChar (n div 10 mod 10)]"
    using assms by (simp add: toDecimal_step [of "n div 10"] div_mult2_eq [symmetric])
  have c: "toDecimal (n div 100) = toDecimal (n div 1000) @ [digitChar (n div 100 mod 10)]"
    using assms by (simp add: toDecimal_step [of "n div 100"] div_mult2_eq [symmetric])
  have d: "n mod 1000 div 100 = n div 100 mod 10" "n mod 1000 div 10 mod 10 = n div 10 mod 10"
    "n mod 1000 mod 10 = n mod 10"
    by (rule mod1000_digits)+
  show ?thesis
    by (simp add: a b c d padStart3_toDecimal)
qed

lemma toDecimal_hd: "0 < n \<Longrightarrow> hd (toDecimal n) \<noteq> CHR ''0''"
proof (induction n rule: toDecimal.induct)
  case (1 n)
  show ?case
  proof (cases "n < 10")
    case True
    have "digitChar n \<noteq> CHR ''0''"
    proof
      assume eq: "digitChar n = CHR ''0''"
      have "(of_char (digitChar n) :: nat) = 48 + n"
        using True by (rule of_char_digitChar)
      then have "n = 0"
        using eq by simp
      with "1.prems" show False
        by simp
    qed
    with True show ?thesis
      by (simp add: toDecimal_small)
  next
    case False
    then have "toDecimal (n div 10) \<noteq> []"
      by (simp add: toDecimal.simps [of "n div 10"])
    with False 1 show ?thesis
      by (simp add: toDecimal_step)
  qed
qed

lemma toDecimal_length: "m < 1000 \<Longrightarrow> 1 \<le> length (toDecimal m) \<and> length (toDecimal m) \<le> 3"
proof -
  assume "m < 1000"
  consider "m < 10" | "10 \<le> m" "m < 100" | "100 \<le> m"
    by linarith
  then show ?thesis
    using \<open>m < 1000\<close>
    by cases (simp_all add: toDecimal_small toDecimal_two toDecimal_three)
qed

lemma Number_toString_nonneg: "0 \<le> n \<Longrightarrow> Number_toString n = toDecimal (nat n)"
  by (simp add: Number_toString_def)

lemma groupDigitsAccum_groups:
  "0 \<le> n \<Longrightarrow>
   \<exists>m gs. groupDigitsAccum n acc = toDecimal m # gs @ acc \<and> m < 1000 \<and>
     list_all (\<lambda>g. length g = 3 \<and> list_all isDigit g) gs"
proof (induction n acc rule: groupDigitsAccum.induct)
  case (1 n acc)
  show ?case
  proof (cases "n < 1000")
    case True
    with "1.prems" have "groupDigitsAccum n acc = toDecimal (nat n) # [] @ acc"
      by (simp add: groupDigitsAccum.simps [of n] Number_toString_nonneg)
    moreover have "nat n < 1000"
      using True "1.prems" by simp
    ultimately show ?thesis
      by (intro exI [of _ "nat n"] exI [of _ "[]"]) simp
  next
    case False
    define p where "p = padStart 3 (CHR ''0'') (Number_toString (n mod 1000))"
    have step: "groupDigitsAccum n acc = groupDigitsAccum (Math_floor_div n 1000) (p # acc)"
      using False by (simp add: groupDigitsAccum.simps [of n] p_def Let_def)
    have q: "0 \<le> Math_floor_div n 1000"
      by (rule Math_floor_div_nonneg) simp
    from "1.IH" [OF False refl refl q]
    obtain m gs where
      g: "groupDigitsAccum (Math_floor_div n 1000) (p # acc) = toDecimal m # gs @ p # acc"
      and m: "m < 1000"
      and gs: "list_all (\<lambda>g. length g = 3 \<and> list_all isDigit g) gs"
      by (auto simp: p_def)
    have "nat (n mod 1000) < 1000"
      by simp
    then have p3: "length p = 3 \<and> list_all isDigit p"
      by (simp add: p_def Number_toString_nonneg padStart3_toDecimal digitChar_isDigit)
    with step g m gs show ?thesis
      by (intro exI [of _ m] exI [of _ "gs @ [p]"]) simp
  qed
qed

lemma groupDigitsAccum_numeral:
  "0 \<le> n \<Longrightarrow> n < 2 ^ 53 \<Longrightarrow>
   concat (groupDigitsAccum n acc) = toDecimal (nat n) @ concat acc"
proof (induction n acc rule: groupDigitsAccum.induct)
  case (1 n acc)
  show ?case
  proof (cases "n < 1000")
    case True
    with "1.prems" show ?thesis
      by (simp add: groupDigitsAccum.simps [of n] Number_toString_nonneg)
  next
    case False
    define p where "p = padStart 3 (CHR ''0'') (Number_toString (n mod 1000))"
    have exact: "Math_floor_div n 1000 = n div 1000"
      using "1.prems" by (intro Math_floor_div_exact) simp_all
    have step: "groupDigitsAccum n acc = groupDigitsAccum (n div 1000) (p # acc)"
      using False by (simp add: groupDigitsAccum.simps [of n] p_def Let_def exact)
    have q: "0 \<le> Math_floor_div n 1000" "Math_floor_div n 1000 < 2 ^ 53"
      using "1.prems" False unfolding exact by simp_all
    from "1.IH" [OF False refl refl q]
    have c: "concat (groupDigitsAccum (n div 1000) (p # acc)) =
             toDecimal (nat (n div 1000)) @ p @ concat acc"
      by (simp add: p_def exact)
    have r: "nat (n mod 1000) = nat n mod 1000" "nat (n div 1000) = nat n div 1000"
      using "1.prems" by (simp_all add: nat_mod_distrib nat_div_distrib)
    have p: "p = padStart 3 (CHR ''0'') (toDecimal (nat n mod 1000))"
      by (simp add: p_def Number_toString_nonneg r)
    have "concat (groupDigitsAccum n acc) = toDecimal (nat (n div 1000)) @ p @ concat acc"
      by (simp only: step c)
    also have "\<dots> = toDecimal (nat n) @ concat acc"
      using False by (simp add: toDecimal_1000 [of "nat n"] r p)
    finally show ?thesis .
  qed
qed

lemma toDecimal_0: "toDecimal 0 = ''0''"
  by (simp add: toDecimal_small digitChar_0)

lemma groupDigits_shape:
  assumes "0 \<le> n"
  obtains m gs where "groupDigits n = toDecimal m # gs" "m < 1000"
    "list_all (\<lambda>g. length g = 3 \<and> list_all isDigit g) gs"
  using groupDigitsAccum_groups [OF assms, of "[]"] unfolding groupDigits_def by auto

lemma groupDigits_numeral:
  "0 \<le> n \<Longrightarrow> n < 2 ^ 53 \<Longrightarrow> concat (groupDigits n) = Number_toString n"
  by (simp add: groupDigits_def groupDigitsAccum_numeral Number_toString_nonneg)

section \<open>Facts about the tables and the renderer\<close>

lemma format_unfold:
  "format l c a =
     (if toLowerCase l = ''us'' then
        (if toUpperCase c \<in> {''USD'', ''JPY'', ''GBP'', ''EUR''}
         then formatSymbolAmount (sgn a) \<bar>a\<bar> (toLowerCase l) (toUpperCase c)
         else formatSymbolAmountCode (sgn a) \<bar>a\<bar> (toLowerCase l) (toUpperCase c))
      else Inl (UnhandledLocale ''Unhandled locale''))"
  by (simp add: formatMonetaryAmountForLocale_def isString_def isNumber_def
      Number_isInteger_def integerOf_def stringOf_def Let_def)

lemma format_normalized:
  "formatMonetaryAmountForLocale (JSString l) (JSString c) amount =
   formatMonetaryAmountForLocale (JSString (toLowerCase l)) (JSString (toUpperCase c)) amount"
  by (simp add: formatMonetaryAmountForLocale_def isString_def stringOf_def
      toLowerCase_idem toUpperCase_idem)

lemma perMajor_100:
  "toUpperCase c \<in> {''BRL'', ''CAD'', ''EUR'', ''GBP'', ''NZD'', ''USD''} \<Longrightarrow>
   minorUnitsPerMajorUnitForCurrency c = Inr 100"
  by (auto simp: minorUnitsPerMajorUnitForCurrency_def)

lemma perMajor_JPY:
  "toUpperCase c = ''JPY'' \<Longrightarrow> minorUnitsPerMajorUnitForCurrency c = Inr 1"
  by (simp add: minorUnitsPerMajorUnitForCurrency_def)

lemma perMajor_other:
  "toUpperCase c \<notin> {''JPY'', ''BRL'', ''CAD'', ''EUR'', ''GBP'', ''NZD'', ''USD''} \<Longrightarrow>
   minorUnitsPerMajorUnitForCurrency c = Inl (UnsupportedCurrency ''Unknown currency exponent'')"
  by (simp add: minorUnitsPerMajorUnitForCurrency_def)

lemma asDecimal_two_digit:
  "toUpperCase c \<in> {''AUD'', ''CAD'', ''EUR'', ''GBP'', ''NZD'', ''USD''} \<Longrightarrow>
   0 \<le> n \<Longrightarrow> n < 100 \<Longrightarrow>
   minorUnitsAsDecimalForCurrency c n = Inr (padStart 2 (CHR ''0'') (toDecimal (nat n)))"
  by (simp add: minorUnitsAsDecimalForCurrency_def Number_toString_nonneg)

lemma asDecimal_BRL:
  "toUpperCase c = ''BRL'' \<Longrightarrow>
   minorUnitsAsDecimalForCurrency c n =
     Inl (UnsupportedCurrency ''Minor unit format for currency code not defined: BRL'')"
  by (simp add: minorUnitsAsDecimalForCurrency_def)

lemma separators_us:
  "toLowerCase l = ''us'' \<Longrightarrow>
   separatorsForLocale l = Some \<lparr>decimalSeparator = ''.'', groupSeparator = '',''\<rparr>"
  by (simp add: separatorsForLocale_def)

lemma render_two_digit:
  assumes "toUpperCase c \<in> {''CAD'', ''EUR'', ''GBP'', ''NZD'', ''USD''}"
    and "0 < n" and "toLowerCase l = ''us''"
  shows "renderAmountWithSeparatorsForCurrencyAndLocale n l c =
         Inr (join '','' (groupDigits (Math_floor_div n 100)) @ ''.'' @
              padStart 2 (CHR ''0'') (toDecimal (nat (n mod 100))))"
proof -
  have b: "minorUnitsPerMajorUnitForCurrency c = Inr 100"
    using assms(1) by (intro perMajor_100) auto
  have f: "minorUnitsAsDecimalForCurrency c (n mod 100) =
           Inr (padStart 2 (CHR ''0'') (toDecimal (nat (n mod 100))))"
    using assms(1) by (intro asDecimal_two_digit) auto
  show ?thesis
    using assms(2)
    by (simp add: renderAmountWithSeparatorsForCurrencyAndLocale_def
        digitGroupsOfAmountForCurrency_def b f separators_us [OF assms(3)])
qed

lemma render_JPY:
  assumes "toUpperCase c = ''JPY''" and "0 < n" and "toLowerCase l = ''us''"
  shows "renderAmountWithSeparatorsForCurrencyAndLocale n l c = Inr (join '','' (groupDigits n))"
  using assms(2)
  by (simp add: renderAmountWithSeparatorsForCurrencyAndLocale_def
      digitGroupsOfAmountForCurrency_def perMajor_JPY [OF assms(1)] separators_us [OF assms(3)])

lemma render_BRL:
  assumes "toUpperCase c = ''BRL''" and "0 < n"
  shows "renderAmountWithSeparatorsForCurrencyAndLocale n l c =
         Inl (UnsupportedCurrency ''Minor unit format for currency code not defined: BRL'')"
proof -
  have b: "minorUnitsPerMajorUnitForCurrency c = Inr 100"
    using assms(1) by (intro perMajor_100) auto
  show ?thesis
    using assms(2)
    by (simp add: renderAmountWithSeparatorsForCurrencyAndLocale_def
        digitGroupsOfAmountForCurrency_def b asDecimal_BRL [OF assms(1)])
qed

lemma render_other:
  assumes "toUpperCase c \<notin> {''JPY'', ''BRL'', ''CAD'', ''EUR'', ''GBP'', ''NZD'', ''USD''}"
    and "0 < n"
  shows "renderAmountWithSeparatorsForCurrencyAndLocale n l c =
         Inl (UnsupportedCurrency ''Unknown currency exponent'')"
  using assms(2)
  by (simp add: renderAmountWithSeparatorsForCurrencyAndLocale_def
      digitGroupsOfAmountForCurrency_def perMajor_other [OF assms(1)])

lemma symbol_cases:
  assumes "symbolForCurrency c = Inr symbol"
  shows "toUpperCase c \<in> {''AUD'', ''CAD'', ''NZD'', ''USD'', ''GBP'', ''EUR'', ''JPY'', ''BRL''}"
    and "CHR ''-'' \<notin> set symbol" and "CHR ''.'' \<notin> set symbol"
  using assms
  by (auto simp: symbolForCurrency_def Let_def poundSign_def euroSign_def yenSign_def
      split: if_splits)

lemma symbol_normalized: "symbolForCurrency (toUpperCase c) = symbolForCurrency c"
  by (simp add: symbolForCurrency_def toUpperCase_idem)

lemma perMajor_normalized:
  "minorUnitsPerMajorUnitForCurrency (toUpperCase c) = minorUnitsPerMajorUnitForCurrency c"
  by (simp add: minorUnitsPerMajorUnitForCurrency_def toUpperCase_idem)

lemma asDecimal_normalized:
  "minorUnitsAsDecimalForCurrency (toUpperCase c) n = minorUnitsAsDecimalForCurrency c n"
  by (simp add: minorUnitsAsDecimalForCurrency_def toUpperCase_idem)

lemma digitGroups_normalized:
  "digitGroupsOfAmountForCurrency (toUpperCase c) n = digitGroupsOfAmountForCurrency c n"
  unfolding digitGroupsOfAmountForCurrency_def perMajor_normalized asDecimal_normalized ..

lemma render_normalized:
  "renderAmountWithSeparatorsForCurrencyAndLocale n l (toUpperCase c) =
   renderAmountWithSeparatorsForCurrencyAndLocale n l c"
  unfolding renderAmountWithSeparatorsForCurrencyAndLocale_def perMajor_normalized
    digitGroups_normalized ..

lemma format_zero:
  assumes "toLowerCase l = ''us''"
  shows "format l c 0 =
     (case symbolForCurrency c of
        Inl e \<Rightarrow> Inl e
      | Inr symbol \<Rightarrow>
          Inr (symbol @ ''0'' @
               (if toUpperCase c \<in> {''USD'', ''JPY'', ''GBP'', ''EUR''} then []
                else '' '' @ toUpperCase c)))"
  using assms format_unfold [of l c 0]
  by (simp add: formatSymbolAmount_def formatSymbolAmountCode_def
      symbol_normalized split: sum.splits)

lemma format_negative_zero:
  "formatMonetaryAmountForLocale (JSString l) (JSString c) (JSNumber NegZero) = format l c 0"
  by (simp add: formatMonetaryAmountForLocale_def isString_def isNumber_def
      Number_isInteger_def integerOf_def)

lemma formatSymbolAmount_nonzero:
  assumes "a \<noteq> 0"
  shows "formatSymbolAmount (sgn a) \<bar>a\<bar> l (toUpperCase c) =
     (case symbolForCurrency c of
        Inl e \<Rightarrow> Inl e
      | Inr symbol \<Rightarrow>
          (case renderAmountWithSeparatorsForCurrencyAndLocale \<bar>a\<bar> l c of
             Inl e \<Rightarrow> Inl e
           | Inr rendered \<Rightarrow> Inr ((if a < 0 then ''-'' else []) @ symbol @ rendered)))"
  unfolding formatSymbolAmount_def symbol_normalized render_normalized
  using assms by (simp add: sgn_if split: sum.splits)

lemma format_nonzero:
  assumes "toLowerCase l = ''us''" and "a \<noteq> 0"
  shows "format l c a =
     (case symbolForCurrency c of
        Inl e \<Rightarrow> Inl e
      | Inr symbol \<Rightarrow>
          (case renderAmountWithSeparatorsForCurrencyAndLocale \<bar>a\<bar> ''us'' c of
             Inl e \<Rightarrow> Inl e
           | Inr rendered \<Rightarrow>
               Inr ((if a < 0 then ''-'' else []) @ symbol @ rendered @
                    (if toUpperCase c \<in> {''USD'', ''JPY'', ''GBP'', ''EUR''} then []
                     else '' '' @ toUpperCase c))))"
proof -
  note fsa = formatSymbolAmount_nonzero [OF assms(2), of "''us''" c]
  have fmt: "format l c a =
     (if toUpperCase c \<in> {''USD'', ''JPY'', ''GBP'', ''EUR''}
      then formatSymbolAmount (sgn a) \<bar>a\<bar> ''us'' (toUpperCase c)
      else formatSymbolAmountCode (sgn a) \<bar>a\<bar> ''us'' (toUpperCase c))"
    by (simp only: format_unfold assms(1) if_True simp_thms)
  show ?thesis
  proof (cases "toUpperCase c \<in> {''USD'', ''JPY'', ''GBP'', ''EUR''}")
    case True
    show ?thesis
      by (simp only: fmt fsa True if_True append_Nil2)
  next
    case False
    show ?thesis
      by (simp only: fmt False if_False formatSymbolAmountCode_def fsa)
        (simp split: sum.splits)
  qed
qed

lemma symbol_AUD_BRL: "symbolForCurrency ''AUD'' = Inr ''$''" "symbolForCurrency ''BRL'' = Inr ''R$''"
  by code_simp+

lemma format_BRL_nonzero:
  assumes "a \<noteq> 0"
  shows "format ''us'' ''BRL'' a =
         Inl (UnsupportedCurrency ''Minor unit format for currency code not defined: BRL'')"
proof -
  have "0 < \<bar>a\<bar>"
    using assms by simp
  then have "renderAmountWithSeparatorsForCurrencyAndLocale \<bar>a\<bar> ''us'' ''BRL'' =
             Inl (UnsupportedCurrency ''Minor unit format for currency code not defined: BRL'')"
    by (rule render_BRL [OF toUpperCase_codes(8)])
  then show ?thesis
    by (simp add: format_nonzero [OF toLowerCase_us assms] symbol_AUD_BRL)
qed

lemma format_AUD_nonzero:
  assumes "a \<noteq> 0"
  shows "format ''us'' ''AUD'' a = Inl (UnsupportedCurrency ''Unknown currency exponent'')"
proof -
  have "0 < \<bar>a\<bar>"
    using assms by simp
  moreover have "toUpperCase ''AUD'' \<notin> {''JPY'', ''BRL'', ''CAD'', ''EUR'', ''GBP'', ''NZD'', ''USD''}"
    by (simp add: toUpperCase_codes)
  ultimately have "renderAmountWithSeparatorsForCurrencyAndLocale \<bar>a\<bar> ''us'' ''AUD'' =
             Inl (UnsupportedCurrency ''Unknown currency exponent'')"
    by (intro render_other)
  then show ?thesis
    by (simp add: format_nonzero [OF toLowerCase_us assms] symbol_AUD_BRL)
qed

lemma formatSymbolAmount_zero:
  "symbolForCurrency c = Inr symbol \<Longrightarrow> formatSymbolAmount 0 n l c = Inr (symbol @ ''0'')"
  by (simp add: formatSymbolAmount_def)

lemma groupDigits_digits: "0 \<le> n \<Longrightarrow> list_all (list_all isDigit) (groupDigits n)"
proof -
  assume "0 \<le> n"
  then obtain m gs where "groupDigits n = toDecimal m # gs"
    and "list_all (\<lambda>g. length g = 3 \<and> list_all isDigit g) gs"
    by (rule groupDigits_shape)
  with toDecimal_isDigit [of m] show ?thesis
    by (simp add: list_all_iff)
qed

lemma set_join: "set (join separator xs) \<subseteq> set separator \<union> \<Union> (set ` set xs)"
  by (induction separator xs rule: join.induct) auto

lemma join_groupDigits_chars:
  assumes "0 \<le> n" and "x \<in> set (join '','' (groupDigits n))"
  shows "x = CHR '','' \<or> isDigit x"
proof -
  from assms(2) set_join have "x \<in> set '','' \<union> \<Union> (set ` set (groupDigits n))"
    by blast
  with groupDigits_digits [OF assms(1)] show ?thesis
    by (auto simp: list_all_iff)
qed

lemma not_isDigit: "\<not> isDigit (CHR ''-'')" "\<not> isDigit (CHR ''.'')" "\<not> isDigit (CHR '' '')"
  by (simp_all add: isDigit_def)

lemma symbol_defined:
  assumes "toUpperCase c \<in> {''AUD'', ''CAD'', ''NZD'', ''USD'', ''GBP'', ''EUR'', ''JPY'', ''BRL''}"
  obtains symbol where "symbolForCurrency c = Inr symbol"
  using assms by (auto simp: symbolForCurrency_def)

lemma format_two_digit:
  assumes "toUpperCase c \<in> {''CAD'', ''EUR'', ''GBP'', ''NZD'', ''USD''}" and "a \<noteq> 0"
    and "symbolForCurrency c = Inr symbol"
  shows "format ''us'' c a =
     Inr ((if a < 0 then ''-'' else []) @ symbol @
          (join '','' (groupDigits (Math_floor_div \<bar>a\<bar> 100)) @ ''.'' @
           padStart 2 (CHR ''0'') (toDecimal (nat (\<bar>a\<bar> mod 100)))) @
          (if toUpperCase c \<in> {''USD'', ''JPY'', ''GBP'', ''EUR''} then []
           else '' '' @ toUpperCase c))"
proof -
  have "0 < \<bar>a\<bar>"
    using assms(2) by simp
  from render_two_digit [OF assms(1) this toLowerCase_us] show ?thesis
    by (simp only: format_nonzero [OF toLowerCase_us assms(2)] assms(3) sum.case)
qed

lemma format_JPY:
  assumes "toUpperCase c = ''JPY''" and "a \<noteq> 0"
  shows "format ''us'' c a =
     Inr ((if a < 0 then ''-'' else []) @ yenSign @ join '','' (groupDigits \<bar>a\<bar>))"
proof -
  have "0 < \<bar>a\<bar>"
    using assms(2) by simp
  from render_JPY [OF assms(1) this toLowerCase_us]
  have r: "renderAmountWithSeparatorsForCurrencyAndLocale \<bar>a\<bar> ''us'' c =
           Inr (join '','' (groupDigits \<bar>a\<bar>))" .
  have s: "symbolForCurrency c = Inr yenSign"
    using assms(1) by (simp add: symbolForCurrency_def)
  show ?thesis
    using assms(1) by (simp add: format_nonzero [OF toLowerCase_us assms(2)] r s)
qed

lemma format_nonzero_unsupported:
  assumes "toUpperCase c \<notin> {''JPY'', ''CAD'', ''EUR'', ''GBP'', ''NZD'', ''USD''}" and "a \<noteq> 0"
  shows "isl (format ''us'' c a)"
proof -
  have pos: "0 < \<bar>a\<bar>"
    using assms(2) by simp
  have "isl (renderAmountWithSeparatorsForCurrencyAndLocale \<bar>a\<bar> ''us'' c)"
  proof (cases "toUpperCase c = ''BRL''")
    case True
    then show ?thesis
      by (simp add: render_BRL [OF _ pos])
  next
    case False
    with assms(1) have
      "toUpperCase c \<notin> {''JPY'', ''BRL'', ''CAD'', ''EUR'', ''GBP'', ''NZD'', ''USD''}"
      by simp
    then show ?thesis
      by (simp add: render_other [OF _ pos])
  qed
  then obtain e where
    r: "renderAmountWithSeparatorsForCurrencyAndLocale \<bar>a\<bar> ''us'' c = Inl e"
    by (auto simp: isl_def)
  show ?thesis
  proof (cases "symbolForCurrency c")
    case (Inl e')
    then show ?thesis
      by (simp only: format_nonzero [OF toLowerCase_us assms(2)] sum.case sum.disc)
  next
    case (Inr symbol)
    then show ?thesis
      by (simp only: format_nonzero [OF toLowerCase_us assms(2)] r sum.case sum.disc)
  qed
qed

lemma format_locale:
  assumes "format l c a = Inr s"
  shows "toLowerCase l = ''us''" and "format l c a = format ''us'' c a"
proof -
  show us: "toLowerCase l = ''us''"
    using assms by (simp add: format_unfold split: if_splits)
  show "format l c a = format ''us'' c a"
    by (simp only: format_unfold us toLowerCase_us)
qed

lemma padStart2_digits:
  assumes "m < 100"
  shows "list_all isDigit (padStart 2 (CHR ''0'') (toDecimal m))"
  using assms by (simp add: padStart2_toDecimal digitChar_isDigit)

lemma rendered_chars:
  assumes "0 \<le> n" and "m < 100"
    and "x \<in> set (join '','' (groupDigits n) @ ''.'' @ padStart 2 (CHR ''0'') (toDecimal m))"
  shows "x = CHR '','' \<or> x = CHR ''.'' \<or> isDigit x"
  using assms(3) join_groupDigits_chars [OF assms(1), of x] padStart2_digits [OF assms(2)]
  by (auto simp: list_all_iff)

lemma code_suffix_chars:
  assumes "toUpperCase c \<in> {''AUD'', ''CAD'', ''NZD'', ''USD'', ''GBP'', ''EUR'', ''JPY'', ''BRL''}"
  shows "CHR ''-'' \<notin> set (if toUpperCase c \<in> {''USD'', ''JPY'', ''GBP'', ''EUR''} then []
                            else '' '' @ toUpperCase c)"
    and "CHR ''.'' \<notin> set (if toUpperCase c \<in> {''USD'', ''JPY'', ''GBP'', ''EUR''} then []
                            else '' '' @ toUpperCase c)"
  using assms by auto

lemma count_list_absent: "x \<notin> set xs \<Longrightarrow> count_list xs x = 0"
  by (induction xs) auto

lemma format_negative_shape:
  assumes "a < 0" and "format l c a = Inr s"
  obtains symbol rest where "symbolForCurrency c = Inr symbol" "s = ''-'' @ symbol @ rest"
    "CHR ''-'' \<notin> set symbol" "CHR ''-'' \<notin> set rest"
proof -
  have nz: "a \<noteq> 0"
    using assms(1) by simp
  have us: "format ''us'' c a = Inr s"
    using format_locale(2) [OF assms(2)] assms(2) by simp
  have six: "toUpperCase c \<in> {''JPY'', ''CAD'', ''EUR'', ''GBP'', ''NZD'', ''USD''}"
  proof (rule ccontr)
    assume "toUpperCase c \<notin> {''JPY'', ''CAD'', ''EUR'', ''GBP'', ''NZD'', ''USD''}"
    then have "isl (format ''us'' c a)"
      using nz by (rule format_nonzero_unsupported)
    with us show False
      by simp
  qed
  show thesis
  proof (cases "toUpperCase c = ''JPY''")
    case True
    have sym: "symbolForCurrency c = Inr yenSign"
      using True by (simp add: symbolForCurrency_def)
    have s: "s = ''-'' @ yenSign @ join '','' (groupDigits \<bar>a\<bar>)"
      using us assms(1) by (simp add: format_JPY [OF True nz])
    have "CHR ''-'' \<notin> set (join '','' (groupDigits \<bar>a\<bar>))"
      using join_groupDigits_chars [of "\<bar>a\<bar>" "CHR ''-''"] by (auto simp: not_isDigit)
    with sym s symbol_cases(2) [OF sym] show thesis
      by (rule that)
  next
    case False
    with six have five: "toUpperCase c \<in> {''CAD'', ''EUR'', ''GBP'', ''NZD'', ''USD''}"
      by simp
    then have "toUpperCase c \<in> {''AUD'', ''CAD'', ''NZD'', ''USD'', ''GBP'', ''EUR'', ''JPY'', ''BRL''}"
      by auto
    note suffix = code_suffix_chars(1) [OF this]
    from this obtain symbol where sym: "symbolForCurrency c = Inr symbol"
      using symbol_defined [of c] five by auto
    let ?rendered = "join '','' (groupDigits (Math_floor_div \<bar>a\<bar> 100)) @ ''.'' @
           padStart 2 (CHR ''0'') (toDecimal (nat (\<bar>a\<bar> mod 100)))"
    let ?suffix = "if toUpperCase c \<in> {''USD'', ''JPY'', ''GBP'', ''EUR''} then []
           else '' '' @ toUpperCase c"
    have s: "s = ''-'' @ symbol @ (?rendered @ ?suffix)"
      using us assms(1) by (simp only: format_two_digit [OF five nz sym] if_True sum.inject
          append_assoc)
    have p1: "0 \<le> Math_floor_div \<bar>a\<bar> 100"
      by (rule Math_floor_div_nonneg) simp
    have p2: "nat (\<bar>a\<bar> mod 100) < 100"
      by simp
    have "CHR ''-'' \<notin> set ?rendered"
      using rendered_chars [OF p1 p2, of "CHR ''-''"]
      by (auto simp: not_isDigit)
    with suffix have "CHR ''-'' \<notin> set (?rendered @ ?suffix)"
      by (simp only: set_append Un_iff simp_thms not_False_eq_True)
    with sym s symbol_cases(2) [OF sym] show thesis
      by (rule that)
  qed
qed

lemma groupDigits_0: "groupDigits 0 = [''0'']"
  by code_simp

lemma format_below_100:
  assumes "toUpperCase c \<in> {''CAD'', ''EUR'', ''GBP'', ''NZD'', ''USD''}"
    and "0 < a" and "a < 100" and "symbolForCurrency c = Inr symbol"
  shows "format ''us'' c a =
     Inr ((symbol @ ''0'') @ ''.'' @ padStart 2 (CHR ''0'') (Number_toString a) @
          (if toUpperCase c \<in> {''USD'', ''JPY'', ''GBP'', ''EUR''} then []
           else '' '' @ toUpperCase c))"
proof -
  have nz: "a \<noteq> 0"
    using assms(2) by simp
  have "Math_floor_div \<bar>a\<bar> 100 = \<bar>a\<bar> div 100"
    using assms(2,3) by (intro Math_floor_div_exact) simp_all
  then have "Math_floor_div \<bar>a\<bar> 100 = 0" "\<bar>a\<bar> mod 100 = a" "\<not> a < 0"
    using assms(2,3) by simp_all
  then show ?thesis
    using assms(2)
    by (simp add: format_two_digit [OF assms(1) nz assms(4)] groupDigits_0
        Number_toString_nonneg)
qed

lemma fraction_shape:
  assumes "CHR ''.'' \<notin> set pre" and "list_all isDigit ds"
    and "post = [] \<or> (\<exists>u. post = CHR '' '' # u \<and> CHR ''.'' \<notin> set u)"
  shows "count_list (pre @ ''.'' @ ds @ post) (CHR ''.'') = 1"
    and "digitsAfterDecimalSeparator (pre @ ''.'' @ ds @ post) = ds"
proof -
  have ds: "CHR ''.'' \<notin> set ds"
    using assms(2) not_isDigit(2) by (auto simp: list_all_iff)
  have post: "CHR ''.'' \<notin> set post"
    using assms(3) by auto
  have "count_list pre (CHR ''.'') = 0" "count_list ds (CHR ''.'') = 0"
    "count_list post (CHR ''.'') = 0"
    using assms(1) ds post by (simp_all add: count_list_absent)
  then show "count_list (pre @ ''.'' @ ds @ post) (CHR ''.'') = 1"
    by simp
  have "dropWhile (\<lambda>c. c \<noteq> CHR ''.'') (pre @ ''.'' @ ds @ post) = ''.'' @ ds @ post"
    using assms(1) by (subst dropWhile_append2) auto
  moreover have "takeWhile isDigit (ds @ post) = ds"
    using assms(2,3) by (auto simp: takeWhile_append2 list_all_iff not_isDigit)
  ultimately show "digitsAfterDecimalSeparator (pre @ ''.'' @ ds @ post) = ds"
    by (simp add: digitsAfterDecimalSeparator_def)
qed

lemma padStart2_length: "m < 100 \<Longrightarrow> length (padStart 2 (CHR ''0'') (toDecimal m)) = 2"
  by (simp add: padStart2_toDecimal)

lemma format_zero_no_separator:
  assumes "symbolForCurrency c = Inr symbol"
  obtains s where "format ''us'' c 0 = Inr s" "CHR ''.'' \<notin> set s"
proof -
  let ?s = "symbol @ ''0'' @
             (if toUpperCase c \<in> {''USD'', ''JPY'', ''GBP'', ''EUR''} then []
              else '' '' @ toUpperCase c)"
  have f: "format ''us'' c 0 = Inr ?s"
    by (simp only: format_zero [OF toLowerCase_us] assms sum.case)
  have "CHR ''.'' \<notin> set ?s"
    using symbol_cases(3) [OF assms] code_suffix_chars(2) [OF symbol_cases(1) [OF assms]]
    by (simp only: set_append Un_iff) simp
  with f show thesis
    by (rule that)
qed

lemma upper_of_listed:
  assumes "c \<in> {''USD'', ''GBP'', ''EUR'', ''NZD'', ''CAD'', ''AUD'', ''BRL'', ''JPY''}"
  shows "toUpperCase c = c"
  using assms by (auto simp: toUpperCase_codes)

lemma symbol_part000_eq:
  "toUpperCase c \<in> {''USD'', ''GBP'', ''EUR'', ''NZD'', ''JPY''} \<Longrightarrow>
   symbolForCurrency_part000 c = symbolForCurrency c"
  by (auto simp: symbolForCurrency_part000_def symbolForCurrency_def)

lemma asDecimal_part000_eq:
  "toUpperCase c \<in> {''USD'', ''GBP'', ''EUR'', ''NZD''} \<Longrightarrow> 0 \<le> n \<Longrightarrow> n < 100 \<Longrightarrow>
   minorUnitsAsDecimalForCurrency_part000 c n = minorUnitsAsDecimalForCurrency c n"
  by (auto simp: minorUnitsAsDecimalForCurrency_part000_def minorUnitsAsDecimalForCurrency_def)

lemma digitGroups_part000_eq:
  assumes "toUpperCase c \<in> {''USD'', ''GBP'', ''EUR'', ''NZD'', ''JPY''}" and "0 < n"
  shows "digitGroupsOfAmountForCurrency_part000 c n = digitGroupsOfAmountForCurrency c n"
proof (cases "toUpperCase c = ''JPY''")
  case True
  then show ?thesis
    using assms(2)
    by (simp add: digitGroupsOfAmountForCurrency_part000_def digitGroupsOfAmountForCurrency_def
        perMajor_JPY)
next
  case False
  with assms(1) have four: "toUpperCase c \<in> {''USD'', ''GBP'', ''EUR'', ''NZD''}"
    by simp
  then have b: "minorUnitsPerMajorUnitForCurrency c = Inr 100"
    by (intro perMajor_100) auto
  have "minorUnitsAsDecimalForCurrency_part000 c (n mod 100) =
        minorUnitsAsDecimalForCurrency c (n mod 100)"
    using four by (rule asDecimal_part000_eq) simp_all
  then show ?thesis
    using assms(2)
    by (simp add: digitGroupsOfAmountForCurrency_part000_def digitGroupsOfAmountForCurrency_def b)
qed

lemma render_part000_eq:
  assumes "toUpperCase c \<in> {''USD'', ''GBP'', ''EUR'', ''NZD'', ''JPY''}" and "0 < n"
  shows "renderAmountWithSeparatorsForCurrencyAndLocale_part000 n l c =
         renderAmountWithSeparatorsForCurrencyAndLocale n l c"
  unfolding renderAmountWithSeparatorsForCurrencyAndLocale_part000_def
    renderAmountWithSeparatorsForCurrencyAndLocale_def digitGroups_part000_eq [OF assms] ..

lemma formatSymbolAmount_part000_eq:
  assumes "toUpperCase c \<in> {''USD'', ''GBP'', ''EUR'', ''NZD'', ''JPY''}"
  shows "formatSymbolAmount_part000 (sgn a) \<bar>a\<bar> l c = formatSymbolAmount (sgn a) \<bar>a\<bar> l c"
proof (cases "a = 0")
  case True
  then show ?thesis
    by (simp add: formatSymbolAmount_part000_def formatSymbolAmount_def
        symbol_part000_eq [OF assms] split: sum.splits)
next
  case False
  then have "0 < \<bar>a\<bar>"
    by simp
  from render_part000_eq [OF assms this] show ?thesis
    by (simp only: formatSymbolAmount_part000_def formatSymbolAmount_def
        symbol_part000_eq [OF assms])
qed

lemma format_part000_eq:
  assumes "toUpperCase c \<in> {''USD'', ''GBP'', ''EUR'', ''NZD'', ''JPY''}"
  shows "format_part000 l c a = format l c a"
proof -
  have u: "toUpperCase (toUpperCase c) \<in> {''USD'', ''GBP'', ''EUR'', ''NZD'', ''JPY''}"
    using assms by (simp only: toUpperCase_idem)
  have "format_part000 l c a =
     (if toLowerCase l = ''us'' then
        (if toUpperCase c \<in> {''USD'', ''JPY'', ''GBP'', ''EUR''}
         then formatSymbolAmount_part000 (sgn a) \<bar>a\<bar> (toLowerCase l) (toUpperCase c)
         else formatSymbolAmountCode_part000 (sgn a) \<bar>a\<bar> (toLowerCase l) (toUpperCase c))
      else Inl (UnhandledLocale ''Unhandled locale''))"
    by (simp add: formatMonetaryAmountForLocale_part000_def isString_def isNumber_def
        Number_isInteger_def integerOf_def stringOf_def Let_def)
  then show ?thesis
    by (simp only: format_unfold formatSymbolAmountCode_part000_def formatSymbolAmountCode_def
        formatSymbolAmount_part000_eq [OF u])
qed

lemma format_supported_returns:
  assumes "toUpperCase c \<in> {''USD'', ''GBP'', ''EUR'', ''NZD'', ''JPY''}"
  shows "\<not> isl (format ''us'' c a)"
proof (cases "a = 0")
  case True
  from assms have
    "toUpperCase c \<in> {''AUD'', ''CAD'', ''NZD'', ''USD'', ''GBP'', ''EUR'', ''JPY'', ''BRL''}"
    by auto
  then obtain symbol where "symbolForCurrency c = Inr symbol"
    by (rule symbol_defined)
  then show ?thesis
    unfolding True by (simp only: format_zero [OF toLowerCase_us] sum.case sum.disc simp_thms)
next
  case False
  show ?thesis
  proof (cases "toUpperCase c = ''JPY''")
    case True
    show ?thesis
      by (simp only: format_JPY [OF True False] sum.disc simp_thms)
  next
    case nj: False
    with assms have five: "toUpperCase c \<in> {''CAD'', ''EUR'', ''GBP'', ''NZD'', ''USD''}"
      by auto
    then have
      "toUpperCase c \<in> {''AUD'', ''CAD'', ''NZD'', ''USD'', ''GBP'', ''EUR'', ''JPY'', ''BRL''}"
      by auto
    then obtain symbol where sym: "symbolForCurrency c = Inr symbol"
      by (rule symbol_defined)
    show ?thesis
      by (simp only: format_two_digit [OF five False sym] sum.disc simp_thms)
  qed
qed

section \<open>The claims\<close>

text \<open>
  C4, as the code has it. Base-1000 digit grouping: for every nonnegative integer \<open>n\<close> the
  groups are not empty, the first group has one to three digits and no leading zero
  unless it is \<open>0\<close> itself, every later group has exactly three digits, and every
  character is a decimal digit. For every nonnegative integer \<open>n\<close> below \<open>2^53\<close> the
  groups, read from the left, spell the decimal numeral of \<open>n\<close> (most significant
  group first). 50000000 gives \<open>50, 000, 000\<close>, 0 gives \<open>0\<close>, and 500000000 minor units
  of USD at locale \<open>us\<close> are formatted as \<open>$5,000,000.00\<close>.
\<close>

theorem groupDigits_base1000:
  "(0 \<le> n \<longrightarrow>
      groupDigits n \<noteq> [] \<and>
      1 \<le> length (hd (groupDigits n)) \<and> length (hd (groupDigits n)) \<le> 3 \<and>
      (hd (groupDigits n) = ''0'' \<or> hd (hd (groupDigits n)) \<noteq> CHR ''0'') \<and>
      list_all (\<lambda>g. length g = 3) (tl (groupDigits n)) \<and>
      list_all (list_all isDigit) (groupDigits n)) \<and>
   (0 \<le> n \<and> n < 2 ^ 53 \<longrightarrow> concat (groupDigits n) = Number_toString n) \<and>
   groupDigits 50000000 = [''50'', ''000'', ''000''] \<and>
   groupDigits 0 = [''0''] \<and>
   format ''us'' ''USD'' 500000000 = Inr ''$5,000,000.00''"
proof -
  have shape: "groupDigits n \<noteq> [] \<and>
      1 \<le> length (hd (groupDigits n)) \<and> length (hd (groupDigits n)) \<le> 3 \<and>
      (hd (groupDigits n) = ''0'' \<or> hd (hd (groupDigits n)) \<noteq> CHR ''0'') \<and>
      list_all (\<lambda>g. length g = 3) (tl (groupDigits n)) \<and>
      list_all (list_all isDigit) (groupDigits n)" if n: "0 \<le> n"
  proof -
    from n obtain m gs where g: "groupDigits n = toDecimal m # gs" and m: "m < 1000"
      and gs: "list_all (\<lambda>g. length g = 3 \<and> list_all isDigit g) gs"
      by (rule groupDigits_shape)
    have first: "toDecimal m = ''0'' \<or> hd (toDecimal m) \<noteq> CHR ''0''"
      by (cases "m = 0") (simp_all add: toDecimal_0 toDecimal_hd)
    have len: "1 \<le> length (toDecimal m) \<and> length (toDecimal m) \<le> 3"
      using m by (rule toDecimal_length)
    have three: "list_all (\<lambda>g. length g = 3) gs" and digits: "list_all (list_all isDigit) gs"
      using gs by (simp_all add: list_all_iff)
    show ?thesis
      using first len three digits
      by (simp add: g toDecimal_isDigit)
  qed
  have numeral: "concat (groupDigits n) = Number_toString n" if "0 \<le> n" and "n < 2 ^ 53"
    using that by (rule groupDigits_numeral)
  have e1: "groupDigits 50000000 = [''50'', ''000'', ''000'']"
    by code_simp
  have e2: "groupDigits 0 = [''0'']"
    by code_simp
  have e3: "format ''us'' ''USD'' 500000000 = Inr ''$5,000,000.00''"
    by code_simp
  from shape numeral e1 e2 e3 show ?thesis
    by blast
qed

text \<open>The grouping theorem at 1234567.\<close>

theorem groupDigits_base1000_witness:
  "(0::int) \<le> 1234567 \<and> (1234567::int) < 2 ^ 53 \<and>
   groupDigits 1234567 = [''1'', ''234'', ''567''] \<and>
   concat (groupDigits 1234567) = Number_toString 1234567 \<and>
   list_all (\<lambda>g. length g = 3) (tl (groupDigits 1234567)) \<and>
   length (hd (groupDigits 1234567)) \<le> 3"
proof -
  have h: "(0::int) \<le> 1234567" "(1234567::int) < 2 ^ 53"
    by simp_all
  have "groupDigits 1234567 = [''1'', ''234'', ''567'']"
    by code_simp
  with h groupDigits_base1000 [of 1234567] show ?thesis
    by simp
qed

text \<open>
  The claim as it is written reads the groups as the decomposition of every nonnegative
  integer. At \<open>2^63\<close>, an amount \<^verbatim>\<open>format('us', 'JPY', 2**63)\<close> passes on, the quotient
  9223372036854775.808 has no double and is rounded to 9223372036854776: the groups
  spell 9223372036854776808 and not 9223372036854775808.
\<close>

theorem groupDigits_base1000_counterexample:
  "groupDigits 9223372036854775808 = [''9'', ''223'', ''372'', ''036'', ''854'', ''776'', ''808''] \<and>
   (9223372036854775808 :: int) div 1000 mod 1000 = 775 \<and>
   format ''us'' ''JPY'' 9223372036854775808 =
     Inr (yenSign @ ''9,223,372,036,854,776,808'')"
proof -
  have "groupDigits 9223372036854775808 =
        [''9'', ''223'', ''372'', ''036'', ''854'', ''776'', ''808'']"
    by code_simp
  moreover have "(9223372036854775808 :: int) div 1000 mod 1000 = 775"
    by simp
  moreover have "format ''us'' ''JPY'' 9223372036854775808 =
        Inr (yenSign @ ''9,223,372,036,854,776,808'')"
    by code_simp
  ultimately show ?thesis
    by blast
qed

text \<open>
  C8. The error scenarios at the entry point: an unknown currency code fails in the symbol
  table (unsupported currency), a locale other than \<open>us\<close> fails in the dispatch
  (unhandled locale), the amount 100.5 and the string amount \<open>100\<close> fail the input
  validation (invalid argument); none of the four calls returns a string.
\<close>

theorem format_error_scenarios:
  "format ''us'' ''ZZZ'' 100 = Inl (UnsupportedCurrency ''Symbol for currency code not defined: ZZZ'') \<and>
   format ''fr'' ''USD'' 100 = Inl (UnhandledLocale ''Unhandled locale'') \<and>
   formatMonetaryAmountForLocale (JSString ''us'') (JSString ''USD'') (JSNumber (Finite (201 / 2)))
     = Inl (InvalidArgument ''amount parameter must be an integer.'') \<and>
   formatMonetaryAmountForLocale (JSString ''us'') (JSString ''USD'') (JSString ''100'')
     = Inl (InvalidArgument ''amount parameter must be a number.'')"
  by code_simp

text \<open>
  C2. BRL has a symbol and a minor-unit base of 100 but no minor-unit rendering rule: for
  every integer amount whose remainder modulo 100 is not zero, formatting it as BRL at
  locale \<open>us\<close> fails with the error of the missing minor-unit rule; no string is returned.
\<close>

theorem format_BRL_fractional_fails:
  "a mod 100 \<noteq> 0 \<Longrightarrow>
   format ''us'' ''BRL'' a =
     Inl (UnsupportedCurrency ''Minor unit format for currency code not defined: BRL'')"
proof -
  assume "a mod 100 \<noteq> 0"
  then have "a \<noteq> 0"
    by auto
  then show ?thesis
    by (rule format_BRL_nonzero)
qed

text \<open>The BRL theorem at 1999 minor units.\<close>

theorem format_BRL_fractional_fails_witness:
  "(1999 :: int) mod 100 \<noteq> 0 \<and>
   format ''us'' ''BRL'' 1999 =
     Inl (UnsupportedCurrency ''Minor unit format for currency code not defined: BRL'')"
proof -
  have h: "(1999 :: int) mod 100 \<noteq> 0"
    by simp
  from h format_BRL_fractional_fails [OF h] show ?thesis
    by simp
qed

text \<open>
  C5. Zero is a special case: for every currency code with a symbol, formatting 0 at locale
  \<open>us\<close> returns the symbol followed by \<open>0\<close> (and by a space and the normalized code when
  the code is none of USD, JPY, GBP, EUR); the result has no sign and no decimal
  separator. For every currency code, negative zero gives the same result as zero.
\<close>

theorem format_zero_unsigned:
  "(symbolForCurrency c = Inr symbol \<longrightarrow>
      format ''us'' c 0 =
        Inr (symbol @ ''0'' @
             (if toUpperCase c \<in> {''USD'', ''JPY'', ''GBP'', ''EUR''} then []
              else '' '' @ toUpperCase c)) \<and>
      (\<exists>s. format ''us'' c 0 = Inr s \<and> CHR ''-'' \<notin> set s \<and> CHR ''.'' \<notin> set s)) \<and>
   formatMonetaryAmountForLocale (JSString ''us'') (JSString c) (JSNumber NegZero) =
     format ''us'' c 0"
proof -
  have "format ''us'' c 0 =
        Inr (symbol @ ''0'' @
             (if toUpperCase c \<in> {''USD'', ''JPY'', ''GBP'', ''EUR''} then []
              else '' '' @ toUpperCase c)) \<and>
      (\<exists>s. format ''us'' c 0 = Inr s \<and> CHR ''-'' \<notin> set s \<and> CHR ''.'' \<notin> set s)"
    if sym: "symbolForCurrency c = Inr symbol"
  proof -
    have f: "format ''us'' c 0 =
        Inr (symbol @ ''0'' @
             (if toUpperCase c \<in> {''USD'', ''JPY'', ''GBP'', ''EUR''} then []
              else '' '' @ toUpperCase c))"
      by (simp only: format_zero [OF toLowerCase_us] sym sum.case)
    have "CHR ''-'' \<notin> set (toUpperCase c)" "CHR ''.'' \<notin> set (toUpperCase c)"
      using symbol_cases(1) [OF sym] by auto
    with symbol_cases(2,3) [OF sym] have
      "CHR ''-'' \<notin> set (symbol @ ''0'' @
             (if toUpperCase c \<in> {''USD'', ''JPY'', ''GBP'', ''EUR''} then []
              else '' '' @ toUpperCase c))"
      "CHR ''.'' \<notin> set (symbol @ ''0'' @
             (if toUpperCase c \<in> {''USD'', ''JPY'', ''GBP'', ''EUR''} then []
              else '' '' @ toUpperCase c))"
      by simp_all
    with f show ?thesis
      by blast
  qed
  with format_negative_zero [of "''us''" c] show ?thesis
    by blast
qed

text \<open>The zero theorem at the code \<open>nzd\<close>.\<close>

theorem format_zero_unsigned_witness:
  "symbolForCurrency ''nzd'' = Inr ''$'' \<and> format ''us'' ''nzd'' 0 = Inr ''$0 NZD'' \<and>
   formatMonetaryAmountForLocale (JSString ''us'') (JSString ''nzd'') (JSNumber NegZero) =
     Inr ''$0 NZD''"
proof -
  have h: "symbolForCurrency ''nzd'' = Inr ''$''"
    by code_simp
  have u: "toUpperCase ''nzd'' = ''NZD''"
    by code_simp
  from h u format_zero_unsigned [of "''nzd''" "''$''"] show ?thesis
    by simp
qed

text \<open>
  C10. A zero amount consults only the symbol table: for every currency code with a symbol,
  \<^verbatim>\<open>formatSymbolAmount\<close> with sign 0 returns the symbol followed by \<open>0\<close> whatever the
  locale and the absolute amount are, and formatting 0 at locale \<open>us\<close> returns it with
  the space and the code appended for codes other than USD, JPY, GBP, EUR. AUD has no
  minor-unit base and BRL no minor-unit rule, yet 0 is formatted as \<open>$0 AUD\<close> and
  \<open>R$0 BRL\<close>, while every nonzero amount of either currency fails.
\<close>

theorem zero_consults_symbol_only:
  "(symbolForCurrency c = Inr symbol \<longrightarrow>
      formatSymbolAmount 0 n l c = Inr (symbol @ ''0'') \<and>
      format ''us'' c 0 =
        Inr (symbol @ ''0'' @
             (if toUpperCase c \<in> {''USD'', ''JPY'', ''GBP'', ''EUR''} then []
              else '' '' @ toUpperCase c))) \<and>
   minorUnitsPerMajorUnitForCurrency ''AUD'' = Inl (UnsupportedCurrency ''Unknown currency exponent'') \<and>
   minorUnitsAsDecimalForCurrency ''BRL'' 0 =
     Inl (UnsupportedCurrency ''Minor unit format for currency code not defined: BRL'') \<and>
   format ''us'' ''AUD'' 0 = Inr ''$0 AUD'' \<and>
   format ''us'' ''BRL'' 0 = Inr ''R$0 BRL'' \<and>
   (a \<noteq> 0 \<longrightarrow>
      format ''us'' ''AUD'' a = Inl (UnsupportedCurrency ''Unknown currency exponent'') \<and>
      format ''us'' ''BRL'' a =
        Inl (UnsupportedCurrency ''Minor unit format for currency code not defined: BRL''))"
proof -
  have general: "formatSymbolAmount 0 n l c = Inr (symbol @ ''0'') \<and>
      format ''us'' c 0 =
        Inr (symbol @ ''0'' @
             (if toUpperCase c \<in> {''USD'', ''JPY'', ''GBP'', ''EUR''} then []
              else '' '' @ toUpperCase c))"
    if sym: "symbolForCurrency c = Inr symbol"
    by (simp only: formatSymbolAmount_zero [OF sym] format_zero [OF toLowerCase_us] sym sum.case
        simp_thms)
  have aud: "minorUnitsPerMajorUnitForCurrency ''AUD'' =
             Inl (UnsupportedCurrency ''Unknown currency exponent'')"
    by code_simp
  have brl: "minorUnitsAsDecimalForCurrency ''BRL'' 0 =
             Inl (UnsupportedCurrency ''Minor unit format for currency code not defined: BRL'')"
    by code_simp
  have z1: "format ''us'' ''AUD'' 0 = Inr ''$0 AUD''"
    by code_simp
  have z2: "format ''us'' ''BRL'' 0 = Inr ''R$0 BRL''"
    by code_simp
  from general aud brl z1 z2 format_AUD_nonzero [of a] format_BRL_nonzero [of a]
  show ?thesis
    by blast
qed

text \<open>The theorem at the code \<open>cad\<close> and at the amounts 5 and -100.\<close>

theorem zero_consults_symbol_only_witness:
  "symbolForCurrency ''cad'' = Inr ''$'' \<and>
   formatSymbolAmount 0 12345 ''fr'' ''cad'' = Inr ''$0'' \<and>
   format ''us'' ''cad'' 0 = Inr ''$0 CAD'' \<and>
   (5 :: int) \<noteq> 0 \<and>
   format ''us'' ''AUD'' 5 = Inl (UnsupportedCurrency ''Unknown currency exponent'') \<and>
   format ''us'' ''BRL'' 5 =
     Inl (UnsupportedCurrency ''Minor unit format for currency code not defined: BRL'')"
proof -
  have h: "symbolForCurrency ''cad'' = Inr ''$''"
    by code_simp
  have u: "toUpperCase ''cad'' = ''CAD''"
    by code_simp
  from h u zero_consults_symbol_only [of "''cad''" "''$''" 12345 "''fr''" 5] show ?thesis
    by simp
qed

text \<open>
  C7. Normalization: the result of the entry point, a string or an error, depends on the
  locale code only through its lower-case form and on the currency code only through its
  upper-case form. Two calls whose codes differ in letter case only give the same
  result, and every call gives the result of the call with the lower-case locale and
  the upper-case currency; \<open>US, usd, 500\<close> gives \<open>$5.00\<close> as \<open>us, USD, 500\<close> does.
\<close>

theorem format_case_insensitive:
  "(toLowerCase l = toLowerCase l' \<and> toUpperCase c = toUpperCase c' \<longrightarrow>
      formatMonetaryAmountForLocale (JSString l) (JSString c) amount =
      formatMonetaryAmountForLocale (JSString l') (JSString c') amount) \<and>
   formatMonetaryAmountForLocale (JSString l) (JSString c) amount =
     formatMonetaryAmountForLocale (JSString (toLowerCase l)) (JSString (toUpperCase c)) amount \<and>
   format ''US'' ''usd'' 500 = format ''us'' ''USD'' 500 \<and>
   format ''US'' ''usd'' 500 = Inr ''$5.00''"
proof -
  have "formatMonetaryAmountForLocale (JSString l) (JSString c) amount =
        formatMonetaryAmountForLocale (JSString l') (JSString c') amount"
    if "toLowerCase l = toLowerCase l'" and "toUpperCase c = toUpperCase c'"
    using that format_normalized [of l c amount] format_normalized [of l' c' amount]
    by simp
  moreover have "format ''US'' ''usd'' 500 = Inr ''$5.00''"
    by code_simp
  moreover have "format ''us'' ''USD'' 500 = Inr ''$5.00''"
    by code_simp
  ultimately show ?thesis
    using format_normalized [of l c amount] by simp
qed

text \<open>The theorem at the codes \<open>Us, uS\<close> and \<open>nZd, Nzd\<close> and the amount -1234567.\<close>

theorem format_case_insensitive_witness:
  "toLowerCase ''Us'' = toLowerCase ''uS'' \<and> toUpperCase ''nZd'' = toUpperCase ''Nzd'' \<and>
   format ''Us'' ''nZd'' (- 1234567) = format ''uS'' ''Nzd'' (- 1234567) \<and>
   format ''Us'' ''nZd'' (- 1234567) = Inr ''-$12,345.67 NZD''"
proof -
  have h: "toLowerCase ''Us'' = toLowerCase ''uS'' \<and> toUpperCase ''nZd'' = toUpperCase ''Nzd''"
    by code_simp
  have v: "format ''uS'' ''Nzd'' (- 1234567) = Inr ''-$12,345.67 NZD''"
    by code_simp
  from h v format_case_insensitive
    [of "''Us''" "''uS''" "''nZd''" "''Nzd''" "JSNumber (Finite (of_int (- 1234567)))"]
  show ?thesis
    by simp
qed




text \<open>
  C1, as the code has it. For USD, GBP, EUR, NZD and CAD and every integer amount \<open>a\<close> with
  \<open>0 < a < 100\<close>, formatting at locale \<open>us\<close> returns a string with exactly one decimal
  separator, and the digits after it are exactly two: \<open>a\<close> padded to two digits. For
  these five currencies and for AUD and BRL, the amount 0 is formatted without any
  decimal separator.
\<close>

theorem two_digit_fraction:
  "(c \<in> {''USD'', ''GBP'', ''EUR'', ''NZD'', ''CAD''} \<and> 0 < a \<and> a < 100 \<longrightarrow>
      (\<exists>s. format ''us'' c a = Inr s \<and> count_list s (CHR ''.'') = 1 \<and>
           digitsAfterDecimalSeparator s = padStart 2 (CHR ''0'') (Number_toString a) \<and>
           length (digitsAfterDecimalSeparator s) = 2)) \<and>
   (c \<in> {''USD'', ''GBP'', ''EUR'', ''NZD'', ''CAD'', ''AUD'', ''BRL''} \<longrightarrow>
      (\<exists>s. format ''us'' c 0 = Inr s \<and> CHR ''.'' \<notin> set s))"
proof -
  have nonzero: "\<exists>s. format ''us'' c a = Inr s \<and> count_list s (CHR ''.'') = 1 \<and>
           digitsAfterDecimalSeparator s = padStart 2 (CHR ''0'') (Number_toString a) \<and>
           length (digitsAfterDecimalSeparator s) = 2"
    if c: "c \<in> {''USD'', ''GBP'', ''EUR'', ''NZD'', ''CAD''}" and a: "0 < a" "a < 100"
  proof -
    from c have "toUpperCase c = c"
      by (intro upper_of_listed) auto
    with c have five: "toUpperCase c \<in> {''CAD'', ''EUR'', ''GBP'', ''NZD'', ''USD''}"
      by auto
    then have eight:
      "toUpperCase c \<in> {''AUD'', ''CAD'', ''NZD'', ''USD'', ''GBP'', ''EUR'', ''JPY'', ''BRL''}"
      by auto
    then obtain symbol where sym: "symbolForCurrency c = Inr symbol"
      by (rule symbol_defined)
    let ?ds = "padStart 2 (CHR ''0'') (Number_toString a)"
    let ?post = "if toUpperCase c \<in> {''USD'', ''JPY'', ''GBP'', ''EUR''} then []
           else '' '' @ toUpperCase c"
    let ?s = "(symbol @ ''0'') @ ''.'' @ ?ds @ ?post"
    have f: "format ''us'' c a = Inr ?s"
      using five a sym by (rule format_below_100)
    have m: "nat a < 100"
      using a by simp
    have ds: "?ds = padStart 2 (CHR ''0'') (toDecimal (nat a))"
      using a by (simp add: Number_toString_nonneg)
    have pre: "CHR ''.'' \<notin> set (symbol @ ''0'')"
      using symbol_cases(3) [OF sym] by simp
    have digits: "list_all isDigit ?ds"
      unfolding ds using m by (rule padStart2_digits)
    have post: "?post = [] \<or> (\<exists>u. ?post = CHR '' '' # u \<and> CHR ''.'' \<notin> set u)"
      using code_suffix_chars(2) [OF eight]
      by (cases "toUpperCase c \<in> {''USD'', ''JPY'', ''GBP'', ''EUR''}") simp_all
    have "count_list ?s (CHR ''.'') = 1" "digitsAfterDecimalSeparator ?s = ?ds"
      using pre digits post by (rule fraction_shape)+
    moreover have "length ?ds = 2"
      unfolding ds using m by (rule padStart2_length)
    ultimately show ?thesis
      using f by simp
  qed
  have zero: "\<exists>s. format ''us'' c 0 = Inr s \<and> CHR ''.'' \<notin> set s"
    if c: "c \<in> {''USD'', ''GBP'', ''EUR'', ''NZD'', ''CAD'', ''AUD'', ''BRL''}"
  proof -
    from c have "toUpperCase c = c"
      by (intro upper_of_listed) auto
    with c have
      "toUpperCase c \<in> {''AUD'', ''CAD'', ''NZD'', ''USD'', ''GBP'', ''EUR'', ''JPY'', ''BRL''}"
      by auto
    then obtain symbol where "symbolForCurrency c = Inr symbol"
      by (rule symbol_defined)
    then obtain s where "format ''us'' c 0 = Inr s" "CHR ''.'' \<notin> set s"
      by (rule format_zero_no_separator)
    then show ?thesis
      by blast
  qed
  from nonzero zero show ?thesis
    by blast
qed

text \<open>The theorem at 5 minor units of NZD, and at the amount 0 of BRL.\<close>

theorem two_digit_fraction_witness:
  "''NZD'' \<in> {''USD'', ''GBP'', ''EUR'', ''NZD'', ''CAD''} \<and> (0 :: int) < 5 \<and> (5 :: int) < 100 \<and>
   format ''us'' ''NZD'' 5 = Inr ''$0.05 NZD'' \<and>
   count_list ''$0.05 NZD'' (CHR ''.'') = 1 \<and>
   digitsAfterDecimalSeparator ''$0.05 NZD'' = ''05'' \<and>
   ''NZD'' \<in> {''USD'', ''GBP'', ''EUR'', ''NZD'', ''CAD'', ''AUD'', ''BRL''} \<and>
   (\<exists>s. format ''us'' ''NZD'' 0 = Inr s \<and> CHR ''.'' \<notin> set s)"
proof -
  have f: "format ''us'' ''NZD'' 5 = Inr ''$0.05 NZD''"
    by code_simp
  have p: "padStart 2 (CHR ''0'') (Number_toString 5) = ''05''"
    by code_simp
  from f p two_digit_fraction [of "''NZD''" 5] show ?thesis
    by simp
qed

text \<open>
  The claim as it is written also names AUD and BRL: at 5 minor units both calls fail,
  AUD for its missing minor-unit base and BRL for its missing minor-unit rule.
\<close>

theorem two_digit_fraction_counterexample:
  "format ''us'' ''BRL'' 5 =
     Inl (UnsupportedCurrency ''Minor unit format for currency code not defined: BRL'') \<and>
   format ''us'' ''AUD'' 5 = Inl (UnsupportedCurrency ''Unknown currency exponent'')"
  by code_simp

text \<open>
  C3. The two variants of the routine agree on USD, GBP, EUR, NZD and JPY: for every
  integer amount, the call at locale \<open>us\<close> returns a string in the module of
  \<^verbatim>\<open>packages/wp-checkout\<close>, and the copy in \<^verbatim>\<open>part_000\<close> returns the same string.
\<close>

theorem variants_agree:
  "format_part000 ''us'' ''USD'' a = format ''us'' ''USD'' a \<and> \<not> isl (format ''us'' ''USD'' a) \<and>
   format_part000 ''us'' ''GBP'' a = format ''us'' ''GBP'' a \<and> \<not> isl (format ''us'' ''GBP'' a) \<and>
   format_part000 ''us'' ''EUR'' a = format ''us'' ''EUR'' a \<and> \<not> isl (format ''us'' ''EUR'' a) \<and>
   format_part000 ''us'' ''NZD'' a = format ''us'' ''NZD'' a \<and> \<not> isl (format ''us'' ''NZD'' a) \<and>
   format_part000 ''us'' ''JPY'' a = format ''us'' ''JPY'' a \<and> \<not> isl (format ''us'' ''JPY'' a)"
proof -
  have "format_part000 ''us'' c a = format ''us'' c a \<and> \<not> isl (format ''us'' c a)"
    if "c = ''USD'' \<or> c = ''GBP'' \<or> c = ''EUR'' \<or> c = ''NZD'' \<or> c = ''JPY''" for c
  proof -
    from that have "toUpperCase c = c"
      by (intro upper_of_listed) auto
    with that have "toUpperCase c \<in> {''USD'', ''GBP'', ''EUR'', ''NZD'', ''JPY''}"
      by auto
    then show ?thesis
      using format_part000_eq format_supported_returns by blast
  qed
  then show ?thesis
    by blast
qed

text \<open>
  C6. For every negative integer amount that the entry point accepts, the result starts
  with one \<open>-\<close>, immediately followed by the currency symbol, and holds no other \<open>-\<close>;
  -500 minor units of USD are formatted as \<open>-$5.00\<close>.
\<close>

theorem negative_sign_once:
  "(a < 0 \<and> format l c a = Inr s \<longrightarrow>
      count_list s (CHR ''-'') = 1 \<and>
      (\<exists>symbol. symbolForCurrency c = Inr symbol \<and> prefix (''-'' @ symbol) s)) \<and>
   format ''us'' ''USD'' (- 500) = Inr ''-$5.00''"
proof -
  have "count_list s (CHR ''-'') = 1 \<and>
      (\<exists>symbol. symbolForCurrency c = Inr symbol \<and> prefix (''-'' @ symbol) s)"
    if "a < 0" and "format l c a = Inr s"
  proof -
    from that obtain symbol rest where sym: "symbolForCurrency c = Inr symbol"
      and s: "s = ''-'' @ symbol @ rest"
      and no: "CHR ''-'' \<notin> set symbol" "CHR ''-'' \<notin> set rest"
      by (rule format_negative_shape)
    from no have "count_list (symbol @ rest) (CHR ''-'') = 0"
      by (intro count_list_absent) simp
    then have "count_list s (CHR ''-'') = 1"
      by (simp add: s)
    moreover have "prefix (''-'' @ symbol) s"
      by (simp add: s)
    ultimately show ?thesis
      using sym by blast
  qed
  moreover have "format ''us'' ''USD'' (- 500) = Inr ''-$5.00''"
    by code_simp
  ultimately show ?thesis
    by blast
qed

text \<open>The theorem at -123456 minor units of GBP, with the locale written \<open>US\<close>.\<close>

theorem negative_sign_once_witness:
  "(- 123456 :: int) < 0 \<and>
   format ''US'' ''gbp'' (- 123456) = Inr (''-'' @ poundSign @ ''1,234.56'') \<and>
   count_list (''-'' @ poundSign @ ''1,234.56'') (CHR ''-'') = 1 \<and>
   (\<exists>symbol. symbolForCurrency ''gbp'' = Inr symbol \<and>
      prefix (''-'' @ symbol) (''-'' @ poundSign @ ''1,234.56''))"
proof -
  have h: "(- 123456 :: int) < 0"
    by simp
  have f: "format ''US'' ''gbp'' (- 123456) = Inr (''-'' @ poundSign @ ''1,234.56'')"
    by code_simp
  from h f negative_sign_once [of "- 123456" "''US''" "''gbp''" "''-'' @ poundSign @ ''1,234.56''"]
  show ?thesis
    by simp
qed

end
